theory Spec2Isabelle
  imports Complex_Main "HOL-Library.Multiset"
begin

section \<open>JavaScript strings and numbers\<close>

text \<open>
  Strings are lists of code units. The numbers the quiz subsystem handles (page numbers,
  question counts, usage counts, dates in milliseconds, status codes) are integers and are
  modelled as \<open>int\<close>; a property that is \<open>undefined\<close> or \<open>null\<close> in the source is
  an \<open>option\<close>.
\<close>

definition digit_char :: "nat \<Rightarrow> char" where
  "digit_char d = char_of (48 + d)"

fun string_of_nat :: "nat \<Rightarrow> string" where
  "string_of_nat n =
     (if n < 10 then [digit_char n] else string_of_nat (n div 10) @ [digit_char (n mod 10)])"

declare string_of_nat.simps [simp del]

text \<open>Number-to-string conversion of a template literal, for integers.\<close>

definition string_of_int :: "int \<Rightarrow> string" where
  "string_of_int i = (if i < 0 then CHR ''-'' # string_of_nat (nat (- i)) else string_of_nat (nat i))"

text \<open>\<open>Array.prototype.join\<close>.\<close>

fun join :: "string \<Rightarrow> string list \<Rightarrow> string" where
  "join sep [] = []"
| "join sep [x] = x"
| "join sep (x # y # ys) = x @ sep @ join sep (y # ys)"

text \<open>\<open>String.prototype.lastIndexOf\<close> for a single character: \<open>-1\<close> when absent.\<close>

fun lastIndexOf_from :: "char \<Rightarrow> string \<Rightarrow> int \<Rightarrow> int \<Rightarrow> int" where
  "lastIndexOf_from c [] i found = found"
| "lastIndexOf_from c (x # xs) i found = lastIndexOf_from c xs (i + 1) (if x = c then i else found)"

definition lastIndexOf :: "string \<Rightarrow> char \<Rightarrow> int" where
  "lastIndexOf s c = lastIndexOf_from c s 0 (- 1)"

text \<open>
  \<open>String.prototype.substring\<close>: both indices are clamped to the string and swapped
  when out of order.
\<close>

definition substring :: "string \<Rightarrow> int \<Rightarrow> int \<Rightarrow> string" where
  "substring s a b =
     (let n = int (length s);
          a' = max 0 (min a n);
          b' = max 0 (min b n);
          lo = min a' b';
          hi = max a' b'
      in take (nat (hi - lo)) (drop (nat lo) s))"

text \<open>White space as \<open>trim\<close> and the regular expression class \<open>\s\<close> see it, on code units below 256.\<close>

definition is_space :: "char \<Rightarrow> bool" where
  "is_space c = (of_char c \<in> {9, 10, 11, 12, 13, 32, 160 :: nat})"

definition trimStart :: "string \<Rightarrow> string" where
  "trimStart s = dropWhile is_space s"

definition trimEnd :: "string \<Rightarrow> string" where
  "trimEnd s = rev (dropWhile is_space (rev s))"

definition trim :: "string \<Rightarrow> string" where
  "trim s = trimEnd (trimStart s)"

fun startsWith :: "string \<Rightarrow> string \<Rightarrow> bool" where
  "startsWith s [] = True"
| "startsWith [] (p # ps) = False"
| "startsWith (c # cs) (p # ps) = (c = p \<and> startsWith cs ps)"

text \<open>\<open>String.prototype.includes\<close>.\<close>

fun str_includes :: "string \<Rightarrow> string \<Rightarrow> bool" where
  "str_includes [] p = (p = [])"
| "str_includes (c # cs) p = (startsWith (c # cs) p \<or> str_includes cs p)"

definition toUpperCase_char :: "char \<Rightarrow> char" where
  "toUpperCase_char c =
     (let n = (of_char c :: nat) in if 97 \<le> n \<and> n \<le> 122 then char_of (n - 32) else c)"

definition toUpperCase :: "string \<Rightarrow> string" where
  "toUpperCase s = map toUpperCase_char s"

section \<open>Data model\<close>

record pageRange =
  range_start :: int
  range_end :: int

text \<open>The value \<open>JSON.parse\<close> returns. Object members are looked up by name.\<close>

datatype json =
  JNull
| JBool bool
| JNum int
| JStr string
| JArr "json list"
| JObj "(string \<times> json) list"

record page =
  pageNumber :: int
  page_text :: string
  characterCount :: int

record book =
  book_id :: string
  book_title :: string
  totalPages :: int
  pages :: "page list"
  pdfText :: "string option"

record quiz =
  quiz_id :: string
  quiz_bookId :: string
  quiz_title :: string
  generatedDate :: int
  quiz_pageRange :: pageRange
  questions :: "json list"
  quiz_difficulty :: string
  quiz_numberOfQuestions :: int
  cacheKey :: string
  usageCount :: int
  lastUsedAt :: int
  generatedBy :: string

definition is_hex :: "char \<Rightarrow> bool" where
  "is_hex c =
     (let n = (of_char c :: nat)
      in (48 \<le> n \<and> n \<le> 57) \<or> (65 \<le> n \<and> n \<le> 70) \<or> (97 \<le> n \<and> n \<le> 102))"

text \<open>\<open>ObjectId.isValid\<close> on a string: twenty-four hexadecimal digits, or twelve bytes.\<close>

definition ObjectId_isValid :: "string \<Rightarrow> bool" where
  "ObjectId_isValid s \<longleftrightarrow> (length s = 24 \<and> list_all is_hex s) \<or> length s = 12"

text \<open>
  A string cast to an \<open>ObjectId\<close>, as its hexadecimal string: the digits in lower
  case, or the twelve bytes written with two digits each.
\<close>

definition toLowerCase_char :: "char \<Rightarrow> char" where
  "toLowerCase_char c =
     (let n = (of_char c :: nat) in if 65 \<le> n \<and> n \<le> 90 then char_of (n + 32) else c)"

definition hex_digit :: "nat \<Rightarrow> char" where
  "hex_digit d = (if d < 10 then char_of (48 + d) else char_of (87 + d))"

definition byte_hex :: "char \<Rightarrow> string" where
  "byte_hex c = (let n = (of_char c :: nat) in [hex_digit (n div 16), hex_digit (n mod 16)])"

definition ObjectId_toHexString :: "string \<Rightarrow> string" where
  "ObjectId_toHexString s =
     (if length s = 24 \<and> list_all is_hex s then map toLowerCase_char s
      else concat (map byte_hex s))"

section \<open>Cache key (lib/quizCache.js)\<close>

text \<open>\<open>x || 1\<close> on a number: zero is falsy.\<close>

definition or_one :: "int \<Rightarrow> int" where
  "or_one x = (if x = 0 then 1 else x)"

definition key_start :: "pageRange option \<Rightarrow> int" where
  "key_start pr = (case pr of None \<Rightarrow> 1 | Some r \<Rightarrow> or_one (range_start r))"

definition key_end :: "pageRange option \<Rightarrow> int" where
  "key_end pr = (case pr of None \<Rightarrow> 1 | Some r \<Rightarrow> or_one (range_end r))"

text \<open>The fields a key is made of, after the defaults for the page range.\<close>

definition normalized_fields ::
  "string \<Rightarrow> pageRange option \<Rightarrow> int \<Rightarrow> string \<Rightarrow> string \<times> int \<times> int \<times> int \<times> string" where
  "normalized_fields bookId pr numberOfQuestions difficulty =
     (bookId, key_start pr, key_end pr, numberOfQuestions, difficulty)"

definition generateCacheKey :: "string \<Rightarrow> pageRange option \<Rightarrow> int \<Rightarrow> string \<Rightarrow> string" where
  "generateCacheKey bookId pr numberOfQuestions difficulty =
     bookId @ ''-'' @ string_of_int (key_start pr) @ ''-'' @ string_of_int (key_end pr)
       @ ''-'' @ string_of_int numberOfQuestions @ ''-'' @ difficulty"

section \<open>Content budget (pages/api/quiz/generate.js)\<close>

definition MAX_TOKENS :: nat where "MAX_TOKENS = 15000"
definition CHARS_PER_TOKEN :: nat where "CHARS_PER_TOKEN = 4"
definition MAX_CHARS :: nat where "MAX_CHARS = MAX_TOKENS * CHARS_PER_TOKEN"

definition truncateText :: "string \<Rightarrow> nat \<Rightarrow> string \<times> bool" where
  "truncateText text maxChars =
     (if length text \<le> maxChars then (text, False)
      else
        let truncated = take maxChars text;
            lastSpace = lastIndexOf truncated (CHR '' '')
        in (if lastSpace > 0 then take (nat lastSpace) truncated else truncated, True))"

text \<open>
  The returned text \<open>r\<close>, a prefix of \<open>t\<close>, stops inside a word: its last character and the
  character of \<open>t\<close> that follows it are both not spaces.
\<close>

definition ends_mid_word :: "string \<Rightarrow> string \<Rightarrow> bool" where
  "ends_mid_word t r \<longleftrightarrow>
     r \<noteq> [] \<and> length r < length t \<and> last r \<noteq> CHR '' '' \<and> t ! length r \<noteq> CHR '' ''"

section \<open>Response parsing (lib/gemini.js)\<close>

text \<open>Property access \<open>v.k\<close> on a value that is not \<open>null\<close>: \<open>None\<close> is \<open>undefined\<close>.\<close>

definition get_prop :: "json \<Rightarrow> string \<Rightarrow> json option" where
  "get_prop v k = (case v of JObj members \<Rightarrow> map_of members k | _ \<Rightarrow> None)"

text \<open>\<open>v && typeof v === 'string'\<close>: a string that is not empty.\<close>

fun truthy_string :: "json option \<Rightarrow> bool" where
  "truthy_string (Some (JStr s)) = (s \<noteq> [])"
| "truthy_string _ = False"

text \<open>\<open>Array.isArray(v) && v.length === 4\<close>.\<close>

fun array_of_four :: "json option \<Rightarrow> bool" where
  "array_of_four (Some (JArr xs)) = (length xs = 4)"
| "array_of_four _ = False"

definition null_property_error :: "string \<Rightarrow> string" where
  "null_property_error k = ''Cannot read properties of null (reading '' @ k @ '')''"

text \<open>The body of the \<open>forEach\<close> callback: \<open>Some\<close> is the message of the error it throws.\<close>

definition check_question :: "nat \<Rightarrow> json \<Rightarrow> string option" where
  "check_question index q =
     (if q = JNull then Some (null_property_error ''question'')
      else if \<not> truthy_string (get_prop q ''question'')
        then Some (''Question '' @ string_of_nat (index + 1) @ '': missing or invalid question'')
      else if \<not> array_of_four (get_prop q ''options'')
        then Some (''Question '' @ string_of_nat (index + 1) @ '': must have exactly 4 options'')
      else if \<not> truthy_string (get_prop q ''correctAnswer'')
        then Some (''Question '' @ string_of_nat (index + 1) @ '': missing or invalid correctAnswer'')
      else if \<not> truthy_string (get_prop q ''explanation'')
        then Some (''Question '' @ string_of_nat (index + 1) @ '': missing or invalid explanation'')
      else None)"

fun check_questions :: "nat \<Rightarrow> json list \<Rightarrow> string option" where
  "check_questions index [] = None"
| "check_questions index (q # qs) =
     (case check_question index q of
        Some e \<Rightarrow> Some e
      | None \<Rightarrow> check_questions (index + 1) qs)"

definition endsWith :: "string \<Rightarrow> string \<Rightarrow> bool" where
  "endsWith s p = startsWith (rev s) (rev p)"

text \<open>\<open>replace(/```\s*$/, '')\<close>: a closing fence followed only by white space is removed.\<close>

definition strip_closing_fence :: "string \<Rightarrow> string" where
  "strip_closing_fence s =
     (let body = trimEnd s
      in if endsWith body ''```'' then take (length body - 3) body else s)"

definition strip_code_fence :: "string \<Rightarrow> string" where
  "strip_code_fence text =
     (let cleanedText = trim text
      in if startsWith cleanedText ''```json''
           then strip_closing_fence (trimStart (drop 7 cleanedText))
         else if startsWith cleanedText ''```''
           then strip_closing_fence (trimStart (drop 3 cleanedText))
         else cleanedText)"

text \<open>
  \<open>JSON.parse\<close> is the engine's: it is the parameter \<open>parse\<close>, \<open>Inl\<close> the message of
  its \<open>SyntaxError\<close>. The body of the \<open>try\<close> block comes first, then the function with
  its \<open>catch\<close>.
\<close>

definition parse_body :: "(string \<Rightarrow> string + json) \<Rightarrow> string \<Rightarrow> string + json list" where
  "parse_body parse text =
     (case parse (strip_code_fence text) of
        Inl e \<Rightarrow> Inl e
      | Inr data \<Rightarrow>
          if data = JNull then Inl (null_property_error ''questions'')
          else (case get_prop data ''questions'' of
                  Some (JArr qs) \<Rightarrow>
                    (case check_questions 0 qs of
                       Some e \<Rightarrow> Inl e
                     | None \<Rightarrow> Inr qs)
                | _ \<Rightarrow> Inl ''Invalid response structure: missing questions array''))"

definition parseQuizResponse :: "(string \<Rightarrow> string + json) \<Rightarrow> string \<Rightarrow> string + json list" where
  "parseQuizResponse parse text =
     (case parse_body parse text of
        Inl e \<Rightarrow> Inl (''Invalid response format: '' @ e)
      | Inr qs \<Rightarrow> Inr qs)"

text \<open>
  The Question invariant of the data model, on a parsed value: exactly four options and a
  \<open>correctAnswer\<close> that is one of the labels A, B, C, D (each label names one option).
\<close>

definition question_invariant :: "json \<Rightarrow> bool" where
  "question_invariant q \<longleftrightarrow>
     array_of_four (get_prop q ''options'')
     \<and> get_prop q ''correctAnswer'' \<in> {Some (JStr ''A''), Some (JStr ''B''), Some (JStr ''C''), Some (JStr ''D'')}"

text \<open>What the validation does establish for a question.\<close>

definition question_shape :: "json \<Rightarrow> bool" where
  "question_shape q \<longleftrightarrow>
     truthy_string (get_prop q ''question'')
     \<and> array_of_four (get_prop q ''options'')
     \<and> truthy_string (get_prop q ''correctAnswer'')
     \<and> truthy_string (get_prop q ''explanation'')"

section \<open>Generation with model fallback and retry (lib/gemini.js)\<close>

definition MODEL_FALLBACK_CHAIN :: "string list" where
  "MODEL_FALLBACK_CHAIN = [''gemini-2.0-flash'', ''gemini-2.5-pro'', ''gemini-2.5-flash'']"

text \<open>
  The generation client is outside the repository. \<open>getGenerativeModel_error\<close> is the
  message of the error \<open>getGenerativeModel\<close> throws for a model name, if it does;
  \<open>generateContent\<close> gives the outcome of the \<open>n\<close>-th generation call of a request (from
  zero), made to a model with a prompt: \<open>Inl\<close> the message of the error thrown,
  \<open>Inr\<close> the response text.
\<close>

record ai_client =
  getGenerativeModel_error :: "string \<Rightarrow> string option"
  generateContent :: "nat \<Rightarrow> string \<Rightarrow> string \<Rightarrow> string + string"
  JSON_parse :: "string \<Rightarrow> string + json"

text \<open>
  The state of one \<open>generateWithRetry\<close>: the generation calls made so far, the message of
  the last error caught, and the delays waited between attempts, in milliseconds.
\<close>

record gen_state =
  calls :: nat
  lastError :: "string option"
  waits :: "int list"

text \<open>One attempt: the generation call and the parsing of its response.\<close>

definition attempt_once :: "ai_client \<Rightarrow> nat \<Rightarrow> string \<Rightarrow> string \<Rightarrow> string + json list" where
  "attempt_once ai n modelName prompt =
     (case generateContent ai n modelName prompt of
        Inl e \<Rightarrow> Inl e
      | Inr text \<Rightarrow> parseQuizResponse (JSON_parse ai) text)"

function attempt_loop ::
  "ai_client \<Rightarrow> string \<Rightarrow> string \<Rightarrow> nat \<Rightarrow> nat \<Rightarrow> gen_state \<Rightarrow> json list option \<times> gen_state" where
  "attempt_loop ai modelName prompt maxRetries attempt st =
     (if attempt \<le> maxRetries then
        (case attempt_once ai (calls st) modelName prompt of
           Inr qs \<Rightarrow> (Some qs, st\<lparr>calls := calls st + 1\<rparr>)
         | Inl e \<Rightarrow>
             attempt_loop ai modelName prompt maxRetries (attempt + 1)
               (st\<lparr>calls := calls st + 1,
                   lastError := Some e,
                   waits := waits st @ (if attempt < maxRetries then [int attempt * 1000] else [])\<rparr>))
      else (None, st))"
  by pat_completeness auto
termination
  by (relation "measure (\<lambda>(ai, modelName, prompt, maxRetries, attempt, st). maxRetries + 1 - attempt)") auto

declare attempt_loop.simps [simp del]

fun model_loop ::
  "ai_client \<Rightarrow> string list \<Rightarrow> string \<Rightarrow> nat \<Rightarrow> gen_state \<Rightarrow> json list option \<times> gen_state" where
  "model_loop ai [] prompt maxRetries st = (None, st)"
| "model_loop ai (modelName # rest) prompt maxRetries st =
     (case getGenerativeModel_error ai modelName of
        Some e \<Rightarrow> model_loop ai rest prompt maxRetries (st\<lparr>lastError := Some e\<rparr>)
      | None \<Rightarrow>
          (case attempt_loop ai modelName prompt maxRetries 1 st of
             (Some qs, st') \<Rightarrow> (Some qs, st')
           | (None, st') \<Rightarrow> model_loop ai rest prompt maxRetries st'))"

definition generateWithRetry ::
  "ai_client \<Rightarrow> string \<Rightarrow> nat \<Rightarrow> (string + json list) \<times> gen_state" where
  "generateWithRetry ai prompt maxRetries =
     (case model_loop ai MODEL_FALLBACK_CHAIN prompt maxRetries
             \<lparr>calls = 0, lastError = None, waits = []\<rparr> of
        (Some qs, st) \<Rightarrow> (Inr qs, st)
      | (None, st) \<Rightarrow>
          (case lastError st of
             Some e \<Rightarrow> (Inl (''Failed to generate quiz with all models. Last error: '' @ e), st)
           | None \<Rightarrow> (Inl (null_property_error ''message''), st)))"

definition newline :: string where
  "newline = [CHR 0x0A]"

definition dquote :: string where
  "dquote = [CHR 0x22]"

definition quoted :: "string \<Rightarrow> string" where
  "quoted s = dquote @ s @ dquote"

definition createQuizPrompt :: "string \<Rightarrow> int \<Rightarrow> string \<Rightarrow> string" where
  "createQuizPrompt content numberOfQuestions difficulty = join newline
     [''You are an expert quiz creator. Generate '' @ string_of_int numberOfQuestions
        @ '' multiple-choice questions based on the following text content.'',
      [],
      ''DIFFICULTY LEVEL: '' @ toUpperCase difficulty,
      [],
      ''CONTENT:'',
      content,
      [],
      ''INSTRUCTIONS:'',
      ''1. Generate exactly '' @ string_of_int numberOfQuestions
        @ '' questions that test comprehension and key concepts'',
      ''2. Each question must have exactly 4 options labeled A, B, C, D'',
      ''3. Only one option should be correct'',
      ''4. Include a brief explanation for why the correct answer is right'',
      ''5. Questions should be '' @ difficulty @ '' difficulty:'',
      ''   - Easy: Basic recall and understanding'',
      ''   - Medium: Application and analysis'',
      ''   - Hard: Synthesis and evaluation'',
      ''6. Ensure questions are clear, unambiguous, and directly related to the content'',
      ''7. Avoid trick questions or overly obscure details'',
      [],
      ''REQUIRED JSON FORMAT (respond with ONLY valid JSON, no additional text):'',
      ''{'',
      ''  '' @ quoted ''questions'' @ '': ['',
      ''    {'',
      ''      '' @ quoted ''question'' @ '': '' @ quoted ''Your question here?'' @ '','',
      ''      '' @ quoted ''options'' @ '': ['' @ quoted ''A) First option'' @ '', ''
        @ quoted ''B) Second option'' @ '', '' @ quoted ''C) Third option'' @ '', ''
        @ quoted ''D) Fourth option'' @ ''],'',
      ''      '' @ quoted ''correctAnswer'' @ '': '' @ quoted ''A'' @ '','',
      ''      '' @ quoted ''explanation'' @ '': '' @ quoted ''Brief explanation of why this is correct'',
      ''    }'',
      ''  ]'',
      ''}'',
      [],
      ''Generate the quiz now in the exact JSON format specified above.'']"

text \<open>\<open>generateQuiz\<close>: input checks, prompt, generation with three attempts per model.\<close>

definition generateQuiz ::
  "ai_client \<Rightarrow> string \<Rightarrow> int \<Rightarrow> string \<Rightarrow> (string + json list) \<times> gen_state" where
  "generateQuiz client content numberOfQuestions difficulty =
     (let idle = \<lparr>calls = 0, lastError = None, waits = []\<rparr>
      in if trim content = []
           then (Inl ''Failed to generate quiz: Content is required to generate quiz'', idle)
         else if numberOfQuestions < 1 \<or> numberOfQuestions > 20
           then (Inl ''Failed to generate quiz: Number of questions must be between 1 and 20'', idle)
         else if difficulty \<notin> set [''easy'', ''medium'', ''hard'']
           then (Inl ''Failed to generate quiz: Difficulty must be easy, medium, or hard'', idle)
         else
           (case generateWithRetry client (createQuizPrompt content numberOfQuestions difficulty) 3 of
              (Inl e, st) \<Rightarrow> (Inl (''Failed to generate quiz: '' @ e), st)
            | (Inr qs, st) \<Rightarrow> (Inr qs, st)))"

section \<open>Quiz cache store (lib/quizCache.js, models/Quiz.js)\<close>

text \<open>
  The collection of quiz documents is a list; a document is identified by its position.
  The database driver is outside the repository: for each of its operations the
  environment says whether it throws (\<open>Some\<close> the message), and it gives the clock
  readings and the identifier of a new document.
\<close>

record env =
  connect_error :: "string option"
  findBook_error :: "string option"
  findOne_error :: "string option"
  find_error :: "string option"
  increment_save_error :: "string option"
  insert_save_error :: "string option"
  now_lookup :: int
  now_generated :: int
  now_saved :: int
  new_id :: string
  ai :: ai_client

text \<open>\<open>Quiz.findOne({ cacheKey })\<close>: the first document with the key, and its position.\<close>

fun findOne_from :: "nat \<Rightarrow> string \<Rightarrow> quiz list \<Rightarrow> (nat \<times> quiz) option" where
  "findOne_from i key [] = None"
| "findOne_from i key (q # qs) = (if cacheKey q = key then Some (i, q) else findOne_from (i + 1) key qs)"

definition findOne :: "quiz list \<Rightarrow> string \<Rightarrow> (nat \<times> quiz) option" where
  "findOne qs key = findOne_from 0 key qs"

text \<open>\<open>incrementUsage\<close>: the document is changed and saved back in its place.\<close>

definition incrementUsage ::
  "env \<Rightarrow> quiz list \<Rightarrow> nat \<Rightarrow> quiz \<Rightarrow> string + quiz \<times> quiz list" where
  "incrementUsage e qs i q =
     (let q' = q\<lparr>usageCount := usageCount q + 1, lastUsedAt := now_lookup e\<rparr>
      in case increment_save_error e of
           Some msg \<Rightarrow> Inl msg
         | None \<Rightarrow> Inr (q', qs[i := q']))"

text \<open>\<open>findCachedQuiz\<close>: every error inside the \<open>try\<close> block gives \<open>null\<close>.\<close>

definition findCachedQuiz ::
  "env \<Rightarrow> quiz list \<Rightarrow> string \<Rightarrow> pageRange option \<Rightarrow> int \<Rightarrow> string \<Rightarrow> quiz option \<times> quiz list" where
  "findCachedQuiz e qs bookId pr numberOfQuestions difficulty =
     (let key = generateCacheKey bookId pr numberOfQuestions difficulty
      in case findOne_error e of
           Some msg \<Rightarrow> (None, qs)
         | None \<Rightarrow>
             (case findOne qs key of
                None \<Rightarrow> (None, qs)
              | Some (i, cachedQuiz) \<Rightarrow>
                  (case incrementUsage e qs i cachedQuiz of
                     Inl msg \<Rightarrow> (None, qs)
                   | Inr (q', qs') \<Rightarrow> (Some q', qs'))))"

text \<open>
  The two steps of \<open>findCachedQuiz\<close>, each behind an \<open>await\<close>: the query for the key,
  and the increment of the document read together with its save. \<open>findCachedQuiz\<close> is the one
  after the other (lemma \<open>findCachedQuiz_steps\<close>).
\<close>

definition lookup_read :: "env \<Rightarrow> quiz list \<Rightarrow> string \<Rightarrow> (nat \<times> quiz) option" where
  "lookup_read e qs key =
     (case findOne_error e of
        Some msg \<Rightarrow> None
      | None \<Rightarrow> findOne qs key)"

definition lookup_save :: "env \<Rightarrow> quiz list \<Rightarrow> (nat \<times> quiz) option \<Rightarrow> quiz option \<times> quiz list" where
  "lookup_save e qs found =
     (case found of
        None \<Rightarrow> (None, qs)
      | Some (i, cachedQuiz) \<Rightarrow>
          (case incrementUsage e qs i cachedQuiz of
             Inl msg \<Rightarrow> (None, qs)
           | Inr (q', qs') \<Rightarrow> (Some q', qs')))"

text \<open>
  Two lookups of one key by two requests, when the second request's query is answered before
  the first request's save reaches the store: both increment the document as they read it.
  The result is what each lookup returns, and the store after both.
\<close>

definition interleaved_lookups ::
  "env \<Rightarrow> env \<Rightarrow> quiz list \<Rightarrow> string \<Rightarrow> pageRange option \<Rightarrow> int \<Rightarrow> string
     \<Rightarrow> quiz option \<times> quiz option \<times> quiz list" where
  "interleaved_lookups e1 e2 qs bookId pr numberOfQuestions difficulty =
     (let key = generateCacheKey bookId pr numberOfQuestions difficulty;
          read1 = lookup_read e1 qs key;
          read2 = lookup_read e2 qs key;
          saved1 = lookup_save e1 qs read1;
          saved2 = lookup_save e2 (snd saved1) read2
      in (fst saved1, fst saved2, snd saved2))"

text \<open>
  The data \<open>saveQuizToCache\<close> is given. \<open>bookId\<close> is the \<open>ObjectId\<close> of the book, as
  its hexadecimal string.
\<close>

record quizData =
  qd_bookId :: string
  qd_title :: string
  qd_generatedDate :: int
  qd_pageRange :: pageRange
  qd_questions :: "json list"
  qd_difficulty :: string
  qd_numberOfQuestions :: int

text \<open>
  The validators of the Quiz schema (models/Quiz.js), which \<open>save\<close> runs before it writes
  the document: the title is required (after \<open>trim\<close>), both ends of the page range and the
  number of questions have a minimum of 1, the difficulty is one of three values, and each
  question has a required \<open>question\<close> and \<open>correctAnswer\<close> and at least two options. A
  value that is an array or an object is not cast to a string. Each failure is a path with
  its message (the offending value is not printed in the message of a failed cast).
\<close>

definition min_error :: "string \<Rightarrow> int \<Rightarrow> int \<Rightarrow> string list" where
  "min_error path v m =
     (if v < m
      then [path @ '': Path `'' @ path @ ''` ('' @ string_of_int v
              @ '') is less than minimum allowed value ('' @ string_of_int m @ '').'']
      else [])"

fun castable_to_String :: "json \<Rightarrow> bool" where
  "castable_to_String (JArr xs) = False"
| "castable_to_String (JObj ms) = False"
| "castable_to_String v = True"

fun string_path_error :: "bool \<Rightarrow> string \<Rightarrow> string \<Rightarrow> json option \<Rightarrow> string list" where
  "string_path_error required path name (Some (JArr xs)) =
     [path @ '': Cast to string failed at path '' @ quoted name]"
| "string_path_error required path name (Some (JObj ms)) =
     [path @ '': Cast to string failed at path '' @ quoted name]"
| "string_path_error required path name (Some (JStr s)) =
     (if required \<and> s = [] then [path @ '': Path `'' @ name @ ''` is required.''] else [])"
| "string_path_error required path name (Some (JNum n)) = []"
| "string_path_error required path name (Some (JBool b)) = []"
| "string_path_error required path name (Some JNull) =
     (if required then [path @ '': Path `'' @ name @ ''` is required.''] else [])"
| "string_path_error required path name None =
     (if required then [path @ '': Path `'' @ name @ ''` is required.''] else [])"

fun options_error :: "string \<Rightarrow> json option \<Rightarrow> string list" where
  "options_error path (Some (JArr xs)) =
     (if \<not> list_all castable_to_String xs
        then [path @ '': Cast to [string] failed at path '' @ quoted ''options'']
      else if length xs < 2 then [path @ '': At least 2 options are required'']
      else [])"
| "options_error path (Some (JObj ms)) =
     [path @ '': Cast to [string] failed at path '' @ quoted ''options'']"
| "options_error path (Some JNull) = [path @ '': Path `options` is required.'']"
| "options_error path v = [path @ '': At least 2 options are required'']"

definition question_errors :: "nat \<Rightarrow> json \<Rightarrow> string list" where
  "question_errors index q =
     (let path = ''questions.'' @ string_of_nat index
      in case q of
           JObj members \<Rightarrow>
             string_path_error True (path @ ''.question'') ''question'' (get_prop q ''question'')
             @ options_error (path @ ''.options'') (get_prop q ''options'')
             @ string_path_error True (path @ ''.correctAnswer'') ''correctAnswer''
                 (get_prop q ''correctAnswer'')
             @ string_path_error False (path @ ''.explanation'') ''explanation''
                 (get_prop q ''explanation'')
         | JNull \<Rightarrow> []
         | _ \<Rightarrow> [path @ '': Cast to embedded failed at path '' @ quoted ''questions''])"

fun questions_errors :: "nat \<Rightarrow> json list \<Rightarrow> string list" where
  "questions_errors index [] = []"
| "questions_errors index (q # qs) = question_errors index q @ questions_errors (index + 1) qs"

definition quiz_validation_errors :: "quizData \<Rightarrow> string list" where
  "quiz_validation_errors d =
     (if trim (qd_title d) = [] then [''title: Quiz title is required''] else [])
     @ min_error ''pageRange.start'' (range_start (qd_pageRange d)) 1
     @ min_error ''pageRange.end'' (range_end (qd_pageRange d)) 1
     @ questions_errors 0 (qd_questions d)
     @ (if qd_difficulty d \<notin> set [''easy'', ''medium'', ''hard'']
        then [''difficulty: '' @ qd_difficulty d @ '' is not a valid difficulty level'']
        else [])
     @ min_error ''numberOfQuestions'' (qd_numberOfQuestions d) 1"

text \<open>
  \<open>saveQuizToCache\<close>: the save fails when the schema refuses the document, when the driver
  says so (no connection), or when the unique index on \<open>cacheKey\<close> already holds the key;
  the error is thrown again. The key is made of the fields as given; the title is stored
  trimmed, and the questions are kept as they were parsed.
\<close>

definition saveQuizToCache :: "env \<Rightarrow> quiz list \<Rightarrow> quizData \<Rightarrow> string + quiz \<times> quiz list" where
  "saveQuizToCache e qs d =
     (let key = generateCacheKey (qd_bookId d) (Some (qd_pageRange d)) (qd_numberOfQuestions d)
                  (qd_difficulty d);
          q = \<lparr>quiz_id = new_id e, quiz_bookId = qd_bookId d, quiz_title = trim (qd_title d),
               generatedDate = qd_generatedDate d, quiz_pageRange = qd_pageRange d,
               questions = qd_questions d, quiz_difficulty = qd_difficulty d,
               quiz_numberOfQuestions = qd_numberOfQuestions d, cacheKey = key,
               usageCount = 1, lastUsedAt = now_saved e, generatedBy = ''gemini''\<rparr>
      in if quiz_validation_errors d \<noteq> []
         then Inl (''Quiz validation failed: '' @ join '', '' (quiz_validation_errors d))
         else
           (case insert_save_error e of
              Some msg \<Rightarrow> Inl msg
            | None \<Rightarrow>
                if key \<in> set (map cacheKey qs)
                then Inl (''E11000 duplicate key error, dup key: cacheKey '' @ key)
                else Inr (q, qs @ [q])))"

record topConfiguration =
  tc_pageRange :: string
  tc_difficulty :: string
  tc_questions :: int
  tc_usageCount :: int
  tc_lastUsed :: int

record cacheStats =
  totalQuizzes :: nat
  uniqueConfigurations :: nat
  cacheHitRate :: rat
  tokensSaved :: int
  topConfigurations :: "topConfiguration list"

text \<open>
  Numbers are IEEE 754 doubles. The counts and their sums, differences and products are
  integers (exact in a double below \<open>2^53\<close>) and stay \<open>int\<close>; a quotient and a product
  with a fraction are rounded to the nearest double, a tie to the even significand. A
  double that is not an integer is given by its exact value, a rational: \<open>to_double\<close>
  rounds a rational to 53 significant bits (the exponent range of a double is not left by a
  quotient of integers below \<open>2^53\<close>).
\<close>

function bit_length :: "int \<Rightarrow> int" where
  "bit_length n = (if n \<le> 0 then 0 else 1 + bit_length (n div 2))"
  by pat_completeness auto
termination
  by (relation "measure nat") auto

declare bit_length.simps [simp del]

definition pow2 :: "int \<Rightarrow> rat" where
  "pow2 k = (if 0 \<le> k then 2 ^ nat k else 1 / 2 ^ nat (- k))"

text \<open>The exponent \<open>k\<close> of a positive number: \<open>2^k \<le> x < 2^(k+1)\<close>.\<close>

definition exponent_of :: "rat \<Rightarrow> int" where
  "exponent_of x =
     (if 1 \<le> x then bit_length \<lfloor>x\<rfloor> - 1
      else let k = bit_length \<lfloor>1 / x\<rfloor> - 1 in if x = pow2 (- k) then - k else - k - 1)"

definition round_half_even :: "rat \<Rightarrow> int" where
  "round_half_even x =
     (let f = \<lfloor>x\<rfloor>; r = x - of_int f
      in if r < 1 / 2 then f else if 1 / 2 < r then f + 1 else if even f then f else f + 1)"

definition to_double :: "rat \<Rightarrow> rat" where
  "to_double x =
     (if x = 0 then 0
      else let a = \<bar>x\<bar>; u = pow2 (exponent_of a - 52)
           in sgn x * of_int (round_half_even (a / u)) * u)"

text \<open>
  \<open>x.toFixed(1)\<close>: the decimal with one fractional digit that is nearest to the exact
  value of the double \<open>x\<close>, the one larger in magnitude when two are equally near.
  \<open>parseFloat\<close> reads the decimal back as the nearest double.
\<close>

definition toFixed1 :: "rat \<Rightarrow> rat" where
  "toFixed1 x =
     (if x < 0 then - (of_int \<lfloor>(- x) * 10 + 1 / 2\<rfloor> / 10) else of_int \<lfloor>x * 10 + 1 / 2\<rfloor> / 10)"

definition parseFloat :: "rat \<Rightarrow> rat" where
  "parseFloat decimal = to_double decimal"

definition top_configuration :: "quiz \<Rightarrow> topConfiguration" where
  "top_configuration q =
     \<lparr>tc_pageRange = string_of_int (range_start (quiz_pageRange q)) @ ''-''
                       @ string_of_int (range_end (quiz_pageRange q)),
      tc_difficulty = quiz_difficulty q,
      tc_questions = quiz_numberOfQuestions q,
      tc_usageCount = usageCount q,
      tc_lastUsed = lastUsedAt q\<rparr>"

text \<open>
  The hit rate before \<open>toFixed\<close>: \<open>(cacheHits / totalUsage) * 100\<close> in doubles, zero
  when nothing was used.
\<close>

definition hit_rate_percent :: "int \<Rightarrow> int \<Rightarrow> rat" where
  "hit_rate_percent cacheHits totalUsage =
     (if totalUsage > 0 then to_double (to_double (of_int cacheHits / of_int totalUsage) * 100)
      else 0)"

text \<open>
  \<open>getCacheStats\<close>. The query casts \<open>bookId\<close> to an \<open>ObjectId\<close>, and throws when that
  fails; the quizzes of the book are those whose \<open>bookId\<close> is that \<open>ObjectId\<close>.
\<close>

definition getCacheStats :: "env \<Rightarrow> quiz list \<Rightarrow> string \<Rightarrow> string + cacheStats" where
  "getCacheStats e qs bookId =
     (if \<not> ObjectId_isValid bookId
      then Inl (''Cast to ObjectId failed for value '' @ quoted bookId
                  @ '' (type string) at path '' @ quoted ''bookId'' @ '' for model ''
                  @ quoted ''Quiz'')
      else
        (case find_error e of
           Some msg \<Rightarrow> Inl msg
         | None \<Rightarrow>
             (let found = filter (\<lambda>q. quiz_bookId q = ObjectId_toHexString bookId) qs
              in if length found = 0
                 then Inr \<lparr>totalQuizzes = 0, uniqueConfigurations = 0, cacheHitRate = 0,
                           tokensSaved = 0, topConfigurations = []\<rparr>
                 else
                   let total = length found;
                       uniq = length (remdups (map cacheKey found));
                       totalUsage = sum_list (map usageCount found);
                       cacheHits = totalUsage - int uniq;
                       tokensPerQuiz = 1500
                   in Inr \<lparr>totalQuizzes = total, uniqueConfigurations = uniq,
                            cacheHitRate = parseFloat (toFixed1 (hit_rate_percent cacheHits totalUsage)),
                            tokensSaved = cacheHits * tokensPerQuiz,
                            topConfigurations =
                              map top_configuration
                                (take 5 (sort_key (\<lambda>q. - usageCount q) found))\<rparr>)))"

definition calculateTokensSaved :: "int \<Rightarrow> int" where
  "calculateTokensSaved used = max 0 (used - 1) * 1500"

section \<open>Content selection (pages/api/quiz/generate.js)\<close>

definition page_separator :: string where
  "page_separator = [CHR 0x0A, CHR 0x0A]"

definition in_range :: "int \<Rightarrow> int \<Rightarrow> page \<Rightarrow> bool" where
  "in_range startPage endPage p \<longleftrightarrow> pageNumber p \<ge> startPage \<and> pageNumber p \<le> endPage"

text \<open>
  The legacy branch: \<open>Math.ceil(totalChars / totalPages)\<close> characters per page. With
  \<open>totalPages\<close> zero the quotient is infinite, and \<open>substring\<close> takes an infinite or
  undefined position as the end or the beginning of the text.
\<close>

definition legacy_slice :: "string \<Rightarrow> int \<Rightarrow> int \<Rightarrow> int \<Rightarrow> string" where
  "legacy_slice t nPages startPage endPage =
     (let totalChars = int (length t)
      in if nPages = 0
         then substring t (if startPage - 1 > 0 then totalChars else 0)
                          (if endPage > 0 then totalChars else 0)
         else
           let charsPerPage = - ((- totalChars) div nPages);
               startChar = (startPage - 1) * charsPerPage;
               endChar = endPage * charsPerPage
           in substring t startChar endChar)"

definition extractTextFromPages :: "book \<Rightarrow> int \<Rightarrow> int \<Rightarrow> string + string" where
  "extractTextFromPages b startPage endPage =
     (if length (pages b) > 0 then
        (let selectedPages = sort_key pageNumber (filter (in_range startPage endPage) (pages b))
         in Inr (join page_separator (map page_text selectedPages)))
      else
        (case pdfText b of
           Some t \<Rightarrow>
             if t \<noteq> [] then Inr (legacy_slice t (totalPages b) startPage endPage)
             else Inl ''Failed to extract text from pages: No text content available in book document''
         | None \<Rightarrow>
             Inl ''Failed to extract text from pages: No text content available in book document''))"

section \<open>Request handler (pages/api/quiz/generate.js)\<close>

record request =
  req_method :: string
  req_bookId :: "string option"
  req_pageRange :: "pageRange option"
  req_numberOfQuestions :: "int option"
  req_difficulty :: "string option"

datatype response =
  ErrorResponse int string
| CacheHit quiz
| Generated quiz bool

text \<open>What the handler has asked of its collaborators, in order.\<close>

datatype event =
  ConnectDB
| FindBook string
| CacheLookup string
| SelectContent
| Generate nat
| Persist string

record db =
  Book_findById :: "string \<Rightarrow> book option"
  quizzes :: "quiz list"

text \<open>
  The checks of the request body, before the \<open>try\<close> block reaches the database:
  \<open>Inl\<close> is the response sent, \<open>Inr\<close> the book identifier, \<open>numQuestions\<close> and
  \<open>quizDifficulty\<close>. A page number of zero stands for a missing one as well.
\<close>

definition validate_request :: "request \<Rightarrow> response + string \<times> int \<times> string" where
  "validate_request req =
     (case req_bookId req of
        None \<Rightarrow> Inl (ErrorResponse 400 ''bookId is required'')
      | Some bookId \<Rightarrow>
          if bookId = [] then Inl (ErrorResponse 400 ''bookId is required'')
          else if \<not> ObjectId_isValid bookId then Inl (ErrorResponse 400 ''Invalid bookId format'')
          else
            let numQuestions =
                  (case req_numberOfQuestions req of
                     None \<Rightarrow> 5
                   | Some n \<Rightarrow> if n = 0 then 5 else n)
            in if numQuestions < 1 \<or> numQuestions > 20
               then Inl (ErrorResponse 400 ''numberOfQuestions must be between 1 and 20'')
               else
                 let quizDifficulty =
                       (case req_difficulty req of
                          None \<Rightarrow> ''medium''
                        | Some d \<Rightarrow> if d = [] then ''medium'' else d)
                 in if quizDifficulty \<notin> set [''easy'', ''medium'', ''hard'']
                    then Inl (ErrorResponse 400 ''difficulty must be easy, medium, or hard'')
                    else
                      (case req_pageRange req of
                         None \<Rightarrow> Inr (bookId, numQuestions, quizDifficulty)
                       | Some r \<Rightarrow>
                           if range_start r = 0 \<or> range_end r = 0
                           then Inl (ErrorResponse 400 ''pageRange must include start and end'')
                           else if range_start r < 1 \<or> range_end r < 1
                           then Inl (ErrorResponse 400 ''Page numbers must be greater than 0'')
                           else if range_start r > range_end r
                           then Inl (ErrorResponse 400
                                  ''start page must be less than or equal to end page'')
                           else Inr (bookId, numQuestions, quizDifficulty)))"

text \<open>The \<open>catch\<close> block of the handler, on the message of the error caught.\<close>

definition error_response :: "string \<Rightarrow> response" where
  "error_response msg =
     (if str_includes msg ''MONGODB_URI''
        then ErrorResponse 500 ''Database configuration error. Please check server settings.''
      else if str_includes msg ''GEMINI_API_KEY''
        then ErrorResponse 500 ''Gemini API key not configured. Please check server settings.''
      else if str_includes msg ''Failed to generate quiz''
        then ErrorResponse 500 ''Failed to generate quiz. Please try again.''
      else if str_includes msg ''Failed to extract''
        then ErrorResponse 400 ''Failed to extract text from specified pages.''
      else ErrorResponse 500 ''Failed to generate quiz'')"

text \<open>From the text selected to the response: emptiness check, budget, generation, persistence.\<close>

definition generate_and_save ::
  "env \<Rightarrow> quiz list \<Rightarrow> request \<Rightarrow> book \<Rightarrow> pageRange \<Rightarrow> int \<Rightarrow> string \<Rightarrow> string
     \<Rightarrow> event list \<Rightarrow> response \<times> quiz list \<times> event list" where
  "generate_and_save e qs req b actualPageRange numQuestions quizDifficulty contentText tr =
     (if trim contentText = []
      then (ErrorResponse 400 ''No text content available for quiz generation'', qs, tr)
      else
        let truncatedText = fst (truncateText contentText MAX_CHARS);
            wasTruncated = snd (truncateText contentText MAX_CHARS)
        in case generateQuiz (ai e) truncatedText numQuestions quizDifficulty of
             (Inl msg, st) \<Rightarrow> (error_response msg, qs, tr @ [Generate (calls st)])
           | (Inr qns, st) \<Rightarrow>
               let quizTitle =
                     (case req_pageRange req of
                        Some r \<Rightarrow> book_title b @ '' - Pages '' @ string_of_int (range_start r)
                                    @ ''-'' @ string_of_int (range_end r)
                      | None \<Rightarrow> book_title b @ '' - Full Book Quiz'');
                   d = \<lparr>qd_bookId = book_id b, qd_title = quizTitle,
                        qd_generatedDate = now_generated e, qd_pageRange = actualPageRange,
                        qd_questions = qns, qd_difficulty = quizDifficulty,
                        qd_numberOfQuestions = int (length qns)\<rparr>;
                   key = generateCacheKey (qd_bookId d) (Some (qd_pageRange d))
                           (qd_numberOfQuestions d) (qd_difficulty d);
                   tr' = tr @ [Generate (calls st), Persist key]
               in (case saveQuizToCache e qs d of
                     Inl msg \<Rightarrow> (error_response msg, qs, tr')
                   | Inr (q, qs') \<Rightarrow> (Generated q wasTruncated, qs', tr')))"

text \<open>The cache-miss path: range check, content selection, then the above.\<close>

definition cache_miss ::
  "env \<Rightarrow> quiz list \<Rightarrow> request \<Rightarrow> book \<Rightarrow> pageRange \<Rightarrow> int \<Rightarrow> string
     \<Rightarrow> event list \<Rightarrow> response \<times> quiz list \<times> event list" where
  "cache_miss e qs req b actualPageRange numQuestions quizDifficulty tr =
     (case req_pageRange req of
        Some r \<Rightarrow>
          if range_end r > totalPages b
          then (ErrorResponse 400
                  (''Page range exceeds book's total pages ('' @ string_of_int (totalPages b) @ '')''),
                qs, tr)
          else
            (case extractTextFromPages b (range_start r) (range_end r) of
               Inl msg \<Rightarrow> (error_response msg, qs, tr @ [SelectContent])
             | Inr contentText \<Rightarrow>
                 generate_and_save e qs req b actualPageRange numQuestions quizDifficulty
                   contentText (tr @ [SelectContent]))
      | None \<Rightarrow>
          let contentText =
                (if length (pages b) > 0 then join page_separator (map page_text (pages b))
                 else (case pdfText b of Some t \<Rightarrow> t | None \<Rightarrow> []))
          in generate_and_save e qs req b actualPageRange numQuestions quizDifficulty
               contentText (tr @ [SelectContent]))"

text \<open>\<open>pageRange || { start: 1, end: book.totalPages }\<close>.\<close>

definition actualPageRange :: "request \<Rightarrow> book \<Rightarrow> pageRange" where
  "actualPageRange req b =
     (case req_pageRange req of
        Some r \<Rightarrow> r
      | None \<Rightarrow> \<lparr>range_start = 1, range_end = totalPages b\<rparr>)"

text \<open>From the book found to the response: the cache is asked first.\<close>

definition with_book ::
  "env \<Rightarrow> quiz list \<Rightarrow> request \<Rightarrow> book \<Rightarrow> string \<Rightarrow> int \<Rightarrow> string
     \<Rightarrow> response \<times> quiz list \<times> event list" where
  "with_book e qs req b bookId numQuestions quizDifficulty =
     (let actual = actualPageRange req b;
          key = generateCacheKey bookId (Some actual) numQuestions quizDifficulty;
          tr = [ConnectDB, FindBook bookId, CacheLookup key]
      in case findCachedQuiz e qs bookId (Some actual) numQuestions quizDifficulty of
           (Some cachedQuiz, qs') \<Rightarrow> (CacheHit cachedQuiz, qs', tr)
         | (None, qs') \<Rightarrow> cache_miss e qs' req b actual numQuestions quizDifficulty tr)"

definition handler :: "env \<Rightarrow> db \<Rightarrow> request \<Rightarrow> response \<times> quiz list \<times> event list" where
  "handler e d req =
     (if req_method req \<noteq> ''POST''
      then (ErrorResponse 405 ''Method not allowed. Use POST.'', quizzes d, [])
      else
        (case validate_request req of
           Inl resp \<Rightarrow> (resp, quizzes d, [])
         | Inr (bookId, numQuestions, quizDifficulty) \<Rightarrow>
             (case connect_error e of
                Some msg \<Rightarrow> (error_response msg, quizzes d, [ConnectDB])
              | None \<Rightarrow>
                  (case findBook_error e of
                     Some msg \<Rightarrow> (error_response msg, quizzes d, [ConnectDB, FindBook bookId])
                   | None \<Rightarrow>
                       (case Book_findById d bookId of
                          None \<Rightarrow>
                            (ErrorResponse 404 ''Book not found'', quizzes d,
                             [ConnectDB, FindBook bookId])
                        | Some b \<Rightarrow>
                            with_book e (quizzes d) req b bookId numQuestions quizDifficulty)))))"

section \<open>Stored books and quizzes\<close>

text \<open>
  What the upload stores for a book (pages/api/books/upload.js with \<open>extractPageByPage\<close>):
  a page array that is not empty, and its length as \<open>totalPages\<close>. Books are written
  nowhere else.
\<close>

definition uploaded_book :: "book \<Rightarrow> bool" where
  "uploaded_book b \<longleftrightarrow> pages b \<noteq> [] \<and> totalPages b = int (length (pages b))"

text \<open>The string of an \<open>ObjectId\<close>: twenty-four hexadecimal digits.\<close>

definition hex_id :: "string \<Rightarrow> bool" where
  "hex_id s \<longleftrightarrow> length s = 24 \<and> list_all is_hex s"

text \<open>A catalogue of uploaded books, each found under its own identifier.\<close>

definition catalogue_ok :: "(string \<Rightarrow> book option) \<Rightarrow> bool" where
  "catalogue_ok books \<longleftrightarrow>
     (\<forall>bookId b. books bookId = Some b \<longrightarrow>
        uploaded_book b \<and> hex_id (book_id b) \<and> books (book_id b) = Some b)"

text \<open>
  A quiz as the handler stores it: its key is made of its own fields, and its page range
  starts at 1 or later and ends within its book (as long as the book is in the catalogue).
\<close>

definition stored_ok :: "(string \<Rightarrow> book option) \<Rightarrow> quiz \<Rightarrow> bool" where
  "stored_ok books q \<longleftrightarrow>
     hex_id (quiz_bookId q)
     \<and> cacheKey q = generateCacheKey (quiz_bookId q) (Some (quiz_pageRange q))
                       (quiz_numberOfQuestions q) (quiz_difficulty q)
     \<and> 1 \<le> range_start (quiz_pageRange q) \<and> 1 \<le> range_end (quiz_pageRange q)
     \<and> (case books (quiz_bookId q) of
          Some b \<Rightarrow> range_end (quiz_pageRange q) \<le> totalPages b
        | None \<Rightarrow> True)"

definition store_consistent :: "db \<Rightarrow> bool" where
  "store_consistent d \<longleftrightarrow> list_all (stored_ok (Book_findById d)) (quizzes d)"

text \<open>
  The states the code can reach. The quiz collection is empty at first and is written by
  the handler alone. Books are uploaded and deleted (pages/api/books/[id].js), and never
  changed: a catalogue is followed by one in which the book of a stored quiz is as it was,
  or is no more.
\<close>

inductive reachable :: "db \<Rightarrow> bool" where
  reachable_start:
    "catalogue_ok books \<Longrightarrow> reachable \<lparr>Book_findById = books, quizzes = []\<rparr>"
| reachable_request:
    "reachable d \<Longrightarrow> reachable (d\<lparr>quizzes := fst (snd (handler e d req))\<rparr>)"
| reachable_catalogue:
    "reachable d \<Longrightarrow> catalogue_ok books \<Longrightarrow>
     list_all (\<lambda>q. books (quiz_bookId q) = Book_findById d (quiz_bookId q)
                   \<or> books (quiz_bookId q) = None) (quizzes d) \<Longrightarrow>
     reachable (d\<lparr>Book_findById := books\<rparr>)"


section \<open>Sample data\<close>

text \<open>A book stored page by page (out of order), a legacy book, and a book without pages.\<close>

definition sample_id :: string where
  "sample_id = ''64b7f0c2a1d3e4f5a6b7c8d9''"

definition sample_book :: book where
  "sample_book =
     \<lparr>book_id = sample_id, book_title = ''Algebra'', totalPages = 3,
      pages = [\<lparr>pageNumber = 3, page_text = ''gamma'', characterCount = 5\<rparr>,
               \<lparr>pageNumber = 1, page_text = ''alpha'', characterCount = 5\<rparr>,
               \<lparr>pageNumber = 2, page_text = ''beta'', characterCount = 4\<rparr>],
      pdfText = None\<rparr>"

definition legacy_book :: book where
  "legacy_book =
     \<lparr>book_id = sample_id, book_title = ''Old scan'', totalPages = 1, pages = [],
      pdfText = Some ''hello world''\<rparr>"

definition pageless_book :: book where
  "pageless_book =
     \<lparr>book_id = sample_id, book_title = ''Draft'', totalPages = 0, pages = [], pdfText = None\<rparr>"

text \<open>A response with one well-shaped question whose answer label is none of A to D.\<close>

definition sample_question :: json where
  "sample_question =
     JObj [(''question'', JStr ''What is 2 + 2?''),
           (''options'', JArr [JStr ''A) 3'', JStr ''B) 4'', JStr ''C) 5'', JStr ''D) 6'']),
           (''correctAnswer'', JStr ''E''),
           (''explanation'', JStr ''Two and two make four.'')]"

definition sample_response :: string where
  "sample_response =
     ''{'' @ quoted ''questions'' @ '': [{'' @ quoted ''question'' @ '': '' @ quoted ''What is 2 + 2?''
       @ '', '' @ quoted ''options'' @ '': ['' @ quoted ''A) 3'' @ '', '' @ quoted ''B) 4'' @ '', ''
       @ quoted ''C) 5'' @ '', '' @ quoted ''D) 6'' @ ''], '' @ quoted ''correctAnswer'' @ '': ''
       @ quoted ''E'' @ '', '' @ quoted ''explanation'' @ '': '' @ quoted ''Two and two make four.''
       @ ''}]}''"

text \<open>\<open>JSON.parse\<close> on the sample response; any other text is taken as malformed.\<close>

definition sample_parse :: "string \<Rightarrow> string + json" where
  "sample_parse s =
     (if s = sample_response then Inr (JObj [(''questions'', JArr [sample_question])])
      else Inl ''Unexpected token'')"

definition failing_client :: ai_client where
  "failing_client =
     \<lparr>getGenerativeModel_error = (\<lambda>m. None),
      generateContent = (\<lambda>n m p. Inl (''quota exceeded for '' @ m)),
      JSON_parse = sample_parse\<rparr>"

definition working_client :: ai_client where
  "working_client =
     \<lparr>getGenerativeModel_error = (\<lambda>m. None),
      generateContent = (\<lambda>n m p. Inr sample_response),
      JSON_parse = sample_parse\<rparr>"

definition sample_env :: env where
  "sample_env =
     \<lparr>connect_error = None, findBook_error = None, findOne_error = None, find_error = None,
      increment_save_error = None, insert_save_error = None,
      now_lookup = 1700000300, now_generated = 1700000400, now_saved = 1700000500,
      new_id = ''75c8a1d3b2e4f5a6b7c8d9e0'', ai = working_client\<rparr>"

text \<open>A quiz for pages 1 to 9, pages the sample book does not have.\<close>

definition sample_quiz :: quiz where
  "sample_quiz =
     \<lparr>quiz_id = ''75c8a1d3b2e4f5a6b7c8d9aa'', quiz_bookId = sample_id,
      quiz_title = ''Algebra - Pages 1-9'', generatedDate = 1700000000,
      quiz_pageRange = \<lparr>range_start = 1, range_end = 9\<rparr>, questions = [sample_question],
      quiz_difficulty = ''medium'', quiz_numberOfQuestions = 5,
      cacheKey = ''64b7f0c2a1d3e4f5a6b7c8d9-1-9-5-medium'', usageCount = 2,
      lastUsedAt = 1700000100, generatedBy = ''gemini''\<rparr>"

definition books_of :: "book \<Rightarrow> string \<Rightarrow> book option" where
  "books_of b bookId = (if bookId = book_id b then Some b else None)"

definition empty_db :: db where
  "empty_db = \<lparr>Book_findById = books_of sample_book, quizzes = []\<rparr>"

definition post :: "pageRange option \<Rightarrow> int option \<Rightarrow> string option \<Rightarrow> request" where
  "post pr n d =
     \<lparr>req_method = ''POST'', req_bookId = Some sample_id, req_pageRange = pr,
      req_numberOfQuestions = n, req_difficulty = d\<rparr>"

text \<open>A store holding the quiz of a whole-book request, and a catalogue with the book without pages.\<close>

definition whole_book_quiz :: quiz where
  "whole_book_quiz =
     \<lparr>quiz_id = ''75c8a1d3b2e4f5a6b7c8d9bb'', quiz_bookId = sample_id,
      quiz_title = ''Algebra - Full Book Quiz'', generatedDate = 1700000000,
      quiz_pageRange = \<lparr>range_start = 1, range_end = 3\<rparr>, questions = [sample_question],
      quiz_difficulty = ''medium'', quiz_numberOfQuestions = 5,
      cacheKey = ''64b7f0c2a1d3e4f5a6b7c8d9-1-3-5-medium'', usageCount = 1,
      lastUsedAt = 1700000000, generatedBy = ''gemini''\<rparr>"

definition cached_db :: db where
  "cached_db = \<lparr>Book_findById = books_of sample_book, quizzes = [whole_book_quiz]\<rparr>"

definition pageless_db :: db where
  "pageless_db = \<lparr>Book_findById = books_of pageless_book, quizzes = []\<rparr>"

text \<open>The text of the whole sample book, and the quiz a whole-book request generates from it.\<close>

definition whole_book_text :: string where
  "whole_book_text = ''gamma'' @ page_separator @ ''alpha'' @ page_separator @ ''beta''"

definition generated_quiz :: quiz where
  "generated_quiz =
     \<lparr>quiz_id = ''75c8a1d3b2e4f5a6b7c8d9e0'', quiz_bookId = sample_id,
      quiz_title = ''Algebra - Full Book Quiz'', generatedDate = 1700000400,
      quiz_pageRange = \<lparr>range_start = 1, range_end = 3\<rparr>, questions = [sample_question],
      quiz_difficulty = ''medium'', quiz_numberOfQuestions = 1,
      cacheKey = ''64b7f0c2a1d3e4f5a6b7c8d9-1-3-1-medium'', usageCount = 1,
      lastUsedAt = 1700000500, generatedBy = ''gemini''\<rparr>"

text \<open>
  The store after the whole-book request has been answered from an empty store, and the
  quiz in it after it has answered one more request from the cache.
\<close>

definition generated_db :: db where
  "generated_db = \<lparr>Book_findById = books_of sample_book, quizzes = [generated_quiz]\<rparr>"

definition used_quiz :: quiz where
  "used_quiz = generated_quiz\<lparr>usageCount := 2, lastUsedAt := 1700000300\<rparr>"

section \<open>Cache key: properties\<close>

lemma string_of_nat_nonempty: "string_of_nat n \<noteq> []"
  by (subst string_of_nat.simps) simp

lemma string_of_nat_small: "n < 10 \<Longrightarrow> string_of_nat n = [digit_char n]"
  by (subst string_of_nat.simps) simp

lemma string_of_nat_large:
  assumes "\<not> n < 10"
  shows "length (string_of_nat n) \<ge> 2"
proof -
  have "string_of_nat n = string_of_nat (n div 10) @ [digit_char (n mod 10)]"
    using assms by (subst string_of_nat.simps) simp
  moreover have "length (string_of_nat (n div 10)) \<ge> 1"
    using string_of_nat_nonempty [of "n div 10"] by (cases "string_of_nat (n div 10)") auto
  ultimately show ?thesis by simp
qed

lemma digit_char_one:
  assumes "d < 10" and "digit_char d = CHR ''1''"
  shows "d = 1"
proof -
  have "of_char (digit_char d) = 48 + d"
    using assms(1) by (simp add: digit_char_def)
  moreover have "of_char (CHR ''1'') = (49::nat)" by simp
  ultimately show ?thesis using assms(2) by simp
qed

lemma string_of_nat_one:
  assumes "string_of_nat n = ''1''"
  shows "n = 1"
proof (cases "n < 10")
  case True
  with assms have "digit_char n = CHR ''1''" by (simp add: string_of_nat_small)
  with True show ?thesis by (rule digit_char_one)
next
  case False
  from string_of_nat_large [OF False] assms show ?thesis by simp
qed

lemma string_of_int_one: "string_of_int i = ''1'' \<longleftrightarrow> i = 1"
proof
  assume a: "string_of_int i = ''1''"
  show "i = 1"
  proof (cases "i < 0")
    case True
    with a show ?thesis by (simp add: string_of_int_def)
  next
    case False
    with a have "string_of_nat (nat i) = ''1''" by (simp add: string_of_int_def)
    then have "nat i = 1" by (rule string_of_nat_one)
    with False show ?thesis by simp
  qed
next
  assume "i = 1"
  moreover have "string_of_int 1 = ''1''" by code_simp
  ultimately show "string_of_int i = ''1''" by simp
qed

lemma key_whole_book_differs:
  assumes "t \<noteq> 0" and "t \<noteq> 1"
  shows "generateCacheKey b (Some \<lparr>range_start = 1, range_end = t\<rparr>) n d
       \<noteq> generateCacheKey b (Some \<lparr>range_start = 1, range_end = 1\<rparr>) n d"
proof
  assume "generateCacheKey b (Some \<lparr>range_start = 1, range_end = t\<rparr>) n d
        = generateCacheKey b (Some \<lparr>range_start = 1, range_end = 1\<rparr>) n d"
  then have "string_of_int t @ (''-'' @ string_of_int n @ ''-'' @ d)
           = string_of_int 1 @ (''-'' @ string_of_int n @ ''-'' @ d)"
    using assms(1) by (simp add: generateCacheKey_def key_start_def key_end_def or_one_def)
  then have "string_of_int t = string_of_int 1" by (simp only: append_same_eq)
  then have "t = 1" using string_of_int_one [of t] string_of_int_one [of 1] by simp
  with assms(2) show False by simp
qed

text \<open>
  C5. The cache key is a function of the normalized fields alone: an absent page range is
  keyed as pages 1 to 1, and two requests whose normalized fields (book, start or 1, end or
  1, question count, difficulty) agree get the same key.
\<close>

theorem generateCacheKey_deterministic:
  "normalized_fields b None n d = (b, 1, 1, n, d)
   \<and> generateCacheKey b None n d = generateCacheKey b (Some \<lparr>range_start = 1, range_end = 1\<rparr>) n d
   \<and> (normalized_fields b pr n d = normalized_fields b' pr' n' d'
        \<longrightarrow> generateCacheKey b pr n d = generateCacheKey b' pr' n' d')"
  by (simp add: normalized_fields_def generateCacheKey_def key_start_def key_end_def or_one_def)

theorem generateCacheKey_deterministic_witness:
  "normalized_fields ''64b7'' None 5 ''easy''
     = normalized_fields ''64b7'' (Some \<lparr>range_start = 0, range_end = 1\<rparr>) 5 ''easy''
   \<and> generateCacheKey ''64b7'' None 5 ''easy''
     = generateCacheKey ''64b7'' (Some \<lparr>range_start = 0, range_end = 1\<rparr>) 5 ''easy''
   \<and> generateCacheKey ''64b7'' None 5 ''easy'' = ''64b7-1-1-5-easy''"
proof -
  have fields: "normalized_fields ''64b7'' None 5 ''easy''
     = normalized_fields ''64b7'' (Some \<lparr>range_start = 0, range_end = 1\<rparr>) 5 ''easy''"
    by (simp add: normalized_fields_def key_start_def key_end_def or_one_def)
  have key: "generateCacheKey ''64b7'' None 5 ''easy'' = ''64b7-1-1-5-easy''"
    by code_simp
  from generateCacheKey_deterministic
         [of "''64b7''" 5 "''easy''" None "''64b7''"
             "Some \<lparr>range_start = 0, range_end = 1\<rparr>" 5 "''easy''"]
       fields key
  show ?thesis by blast
qed

section \<open>Content budget: properties\<close>

lemma lastIndexOf_from_spec:
  "(lastIndexOf_from c xs i found = found \<and> c \<notin> set xs)
   \<or> (\<exists>k < length xs. lastIndexOf_from c xs i found = i + int k \<and> xs ! k = c
          \<and> (\<forall>j. k < j \<and> j < length xs \<longrightarrow> xs ! j \<noteq> c))"
proof (induction xs arbitrary: i found)
  case Nil
  then show ?case by simp
next
  case (Cons x xs)
  let ?f = "if x = c then i else found"
  from Cons.IH [of "i + 1" ?f]
  show ?case
  proof
    assume a: "lastIndexOf_from c xs (i + 1) ?f = ?f \<and> c \<notin> set xs"
    show ?thesis
    proof (cases "x = c")
      case True
      with a have "lastIndexOf_from c (x # xs) i found = i + int 0" by simp
      moreover have "(x # xs) ! 0 = c" using True by simp
      moreover have "\<forall>j. 0 < j \<and> j < length (x # xs) \<longrightarrow> (x # xs) ! j \<noteq> c"
        using a by (auto simp: nth_Cons split: nat.splits)
      ultimately show ?thesis by (intro disjI2 exI [of _ 0]) simp
    next
      case False
      with a show ?thesis by simp
    qed
  next
    assume "\<exists>k<length xs. lastIndexOf_from c xs (i + 1) ?f = i + 1 + int k \<and> xs ! k = c
              \<and> (\<forall>j. k < j \<and> j < length xs \<longrightarrow> xs ! j \<noteq> c)"
    then obtain k where k: "k < length xs" "lastIndexOf_from c xs (i + 1) ?f = i + 1 + int k"
      "xs ! k = c" "\<forall>j. k < j \<and> j < length xs \<longrightarrow> xs ! j \<noteq> c" by blast
    have "\<forall>j. Suc k < j \<and> j < length (x # xs) \<longrightarrow> (x # xs) ! j \<noteq> c"
      using k(4) by (auto simp: nth_Cons split: nat.splits)
    with k show ?thesis
      by (intro disjI2 exI [of _ "Suc k"]) simp
  qed
qed

lemma lastIndexOf_cases:
  "(lastIndexOf s c = - 1 \<and> c \<notin> set s)
   \<or> (\<exists>k < length s. lastIndexOf s c = int k \<and> s ! k = c
          \<and> (\<forall>j. k < j \<and> j < length s \<longrightarrow> s ! j \<noteq> c))"
  using lastIndexOf_from_spec [of c s 0 "- 1"] by (simp add: lastIndexOf_def)

lemma truncateText_length: "length (fst (truncateText t m)) \<le> m"
  by (simp add: truncateText_def Let_def)

lemma truncateText_flag: "snd (truncateText t m) = (m < length t)"
  by (auto simp add: truncateText_def Let_def)

lemma truncateText_boundary:
  assumes "m < length t" and "0 < i" and "i < m" and "t ! i = CHR '' ''"
  shows "\<exists>j. 0 < j \<and> j < m \<and> fst (truncateText t m) = take j t \<and> t ! j = CHR '' ''
           \<and> (\<forall>k. j < k \<and> k < m \<longrightarrow> t ! k \<noteq> CHR '' '')"
proof -
  let ?tr = "take m t"
  have len: "length ?tr = m" using assms(1) by simp
  have "CHR '' '' \<in> set ?tr"
    using assms by (metis len nth_take nth_mem)
  with lastIndexOf_cases [of ?tr "CHR '' ''"]
  obtain k where k: "k < length ?tr" "lastIndexOf ?tr (CHR '' '') = int k" "?tr ! k = CHR '' ''"
    "\<forall>j. k < j \<and> j < length ?tr \<longrightarrow> ?tr ! j \<noteq> CHR '' ''" by blast
  have "\<not> k < i" using k(4) assms len by (metis nth_take)
  then have kpos: "0 < k" using assms(2) by simp
  have km: "k < m" using k(1) len by simp
  have "fst (truncateText t m) = take k ?tr"
    using assms(1) k(2) kpos by (simp add: truncateText_def Let_def)
  also have "\<dots> = take k t" using km by (simp add: min_def)
  finally have r: "fst (truncateText t m) = take k t" .
  have "t ! k = CHR '' ''" using k(3) km by simp
  moreover have "\<forall>j. k < j \<and> j < m \<longrightarrow> t ! j \<noteq> CHR '' ''"
    using k(4) len by (metis nth_take)
  ultimately show ?thesis using kpos km r by blast
qed

text \<open>
  C2, as the code has it. The text returned is never longer than \<open>maxChars\<close>, and
  \<open>wasTruncated\<close> holds exactly when the text was longer than \<open>maxChars\<close>. When the text
  is truncated and a space stands within the first \<open>maxChars\<close> characters at an index
  other than 0, the text returned stops just before the last such space, so it does not end
  inside a word. (A space at index 0 alone is not backed up to.)
\<close>

theorem truncateText_safety:
  "length (fst (truncateText t m)) \<le> m
   \<and> snd (truncateText t m) = (m < length t)
   \<and> (m < length t \<and> 0 < i \<and> i < m \<and> t ! i = CHR '' '' \<longrightarrow>
        \<not> ends_mid_word t (fst (truncateText t m))
        \<and> (\<exists>j. 0 < j \<and> j < m \<and> fst (truncateText t m) = take j t \<and> t ! j = CHR '' ''
                \<and> (\<forall>k. j < k \<and> k < m \<longrightarrow> t ! k \<noteq> CHR '' '')))"
proof (intro conjI impI)
  show "length (fst (truncateText t m)) \<le> m" by (rule truncateText_length)
  show "snd (truncateText t m) = (m < length t)" by (rule truncateText_flag)
next
  assume a: "m < length t \<and> 0 < i \<and> i < m \<and> t ! i = CHR '' ''"
  then obtain j where j: "0 < j" "j < m" "fst (truncateText t m) = take j t" "t ! j = CHR '' ''"
    "\<forall>k. j < k \<and> k < m \<longrightarrow> t ! k \<noteq> CHR '' ''"
    using truncateText_boundary [of m t i] by blast
  have "length (take j t) = j" using j(2) a by simp
  with j(3,4) show "\<not> ends_mid_word t (fst (truncateText t m))"
    by (simp add: ends_mid_word_def)
  from j show "\<exists>j. 0 < j \<and> j < m \<and> fst (truncateText t m) = take j t \<and> t ! j = CHR '' ''
                \<and> (\<forall>k. j < k \<and> k < m \<longrightarrow> t ! k \<noteq> CHR '' '')" by blast
qed

theorem truncateText_safety_witness:
  "(5::nat) < length ''ab cd efgh'' \<and> (0::nat) < 2 \<and> (2::nat) < 5 \<and> ''ab cd efgh'' ! 2 = CHR '' ''
   \<and> truncateText ''ab cd efgh'' 5 = (''ab'', True)
   \<and> \<not> ends_mid_word ''ab cd efgh'' (fst (truncateText ''ab cd efgh'' 5))"
proof -
  have h: "(5::nat) < length ''ab cd efgh'' \<and> (0::nat) < 2 \<and> (2::nat) < 5
           \<and> ''ab cd efgh'' ! 2 = CHR '' ''" by simp
  have v: "truncateText ''ab cd efgh'' 5 = (''ab'', True)"
    by (simp add: truncateText_def lastIndexOf_def)
  from truncateText_safety [of "''ab cd efgh''" 5 2] h
  have "\<not> ends_mid_word ''ab cd efgh'' (fst (truncateText ''ab cd efgh'' 5))" by blast
  with h v show ?thesis by blast
qed

theorem truncateText_mid_word_counterexample:
  "(3::nat) < length '' abcdef'' \<and> CHR '' '' \<in> set (take 3 '' abcdef'')
   \<and> truncateText '' abcdef'' 3 = ('' ab'', True)
   \<and> ends_mid_word '' abcdef'' (fst (truncateText '' abcdef'' 3))"
  by (simp add: truncateText_def lastIndexOf_def ends_mid_word_def)

section \<open>Response parsing: properties\<close>

lemma check_question_None:
  "check_question i q = None \<Longrightarrow> question_shape q"
  by (simp add: check_question_def question_shape_def split: if_splits)

lemma check_questions_None:
  "check_questions i qs = None \<Longrightarrow> \<forall>q \<in> set qs. question_shape q"
proof (induction qs arbitrary: i)
  case Nil
  then show ?case by simp
next
  case (Cons q qs)
  from Cons.prems have q: "check_question i q = None"
    by (cases "check_question i q") auto
  with Cons.prems have "check_questions (i + 1) qs = None" by simp
  then have "\<forall>x \<in> set qs. question_shape x" by (rule Cons.IH)
  with q show ?case by (simp add: check_question_None)
qed

lemma parse_body_Inr:
  assumes "parse_body jp text = Inr qs"
  shows "check_questions 0 qs = None"
proof -
  from assms obtain data where d: "jp (strip_code_fence text) = Inr data"
    by (cases "jp (strip_code_fence text)") (auto simp: parse_body_def)
  with assms have nn: "data \<noteq> JNull"
    by (auto simp: parse_body_def split: if_splits)
  from assms d nn obtain xs where xs: "get_prop data ''questions'' = Some (JArr xs)"
    by (auto simp: parse_body_def split: option.splits json.splits)
  with assms d nn show ?thesis
    by (auto simp: parse_body_def split: option.splits)
qed

text \<open>
  C6, as the code has it. Every question in the sequence the parsing returns has a
  non-empty string \<open>question\<close>, an \<open>options\<close> array of exactly four elements, a non-empty
  string \<open>correctAnswer\<close> and a non-empty string \<open>explanation\<close>. That the answer is one of
  the labels A, B, C, D is not checked.
\<close>

theorem parseQuizResponse_shape:
  "parseQuizResponse jp text = Inr qs \<Longrightarrow> \<forall>q \<in> set qs. question_shape q"
proof -
  assume "parseQuizResponse jp text = Inr qs"
  then have "parse_body jp text = Inr qs"
    by (cases "parse_body jp text") (auto simp: parseQuizResponse_def)
  then have "check_questions 0 qs = None" by (rule parse_body_Inr)
  then show ?thesis by (rule check_questions_None)
qed

theorem parseQuizResponse_shape_witness:
  "parseQuizResponse sample_parse sample_response = Inr [sample_question]
   \<and> question_shape sample_question"
proof -
  have p: "parseQuizResponse sample_parse sample_response = Inr [sample_question]"
    by code_simp
  from parseQuizResponse_shape [OF p] have "question_shape sample_question" by simp
  with p show ?thesis by simp
qed

theorem parseQuizResponse_invariant_counterexample:
  "parseQuizResponse sample_parse sample_response = Inr [sample_question]
   \<and> get_prop sample_question ''correctAnswer'' = Some (JStr ''E'')
   \<and> \<not> question_invariant sample_question"
  by code_simp

section \<open>Generation with fallback and retry: properties\<close>

lemma attempt_loop_done: "k < a \<Longrightarrow> attempt_loop client m p k a st = (None, st)"
  by (subst attempt_loop.simps) simp

lemma attempt_loop_failed:
  "a \<le> k \<Longrightarrow> attempt_once client (calls st) m p = Inl e \<Longrightarrow>
   attempt_loop client m p k a st =
     attempt_loop client m p k (a + 1)
       (st\<lparr>calls := calls st + 1, lastError := Some e,
           waits := waits st @ (if a < k then [int a * 1000] else [])\<rparr>)"
  by (subst attempt_loop.simps) simp

lemma attempt_loop_exhausted:
  assumes fails: "\<forall>n. isl (attempt_once client n m p)"
  shows "fst (attempt_loop client m p k a st) = None
       \<and> calls (snd (attempt_loop client m p k a st)) = calls st + (k + 1 - a)
       \<and> lastError (snd (attempt_loop client m p k a st))
           = (if a \<le> k then Some (projl (attempt_once client (calls st + (k - a)) m p))
              else lastError st)"
proof (induction "k + 1 - a" arbitrary: a st)
  case 0
  then have "k < a" by simp
  then show ?case by (simp add: attempt_loop_done)
next
  case (Suc d)
  then have le: "a \<le> k" by simp
  from fails have "isl (attempt_once client (calls st) m p)" by blast
  then obtain e where e: "attempt_once client (calls st) m p = Inl e"
    by (cases "attempt_once client (calls st) m p") auto
  let ?st = "st\<lparr>calls := calls st + 1, lastError := Some e,
                 waits := waits st @ (if a < k then [int a * 1000] else [])\<rparr>"
  have step: "attempt_loop client m p k a st = attempt_loop client m p k (a + 1) ?st"
    using le e by (rule attempt_loop_failed)
  have d: "d = k + 1 - (a + 1)" using Suc.hyps(2) by simp
  note IH = Suc.hyps(1) [OF d, of ?st]
  show ?case
  proof (cases "a + 1 \<le> k")
    case True
    then have "calls st + 1 + (k - (a + 1)) = calls st + (k - a)" by simp
    then show ?thesis unfolding step using IH True le by simp
  next
    case False
    with le have "k = a" by simp
    then show ?thesis unfolding step using IH e by simp
  qed
qed

lemma model_loop_exhausted:
  assumes ok: "\<forall>m \<in> set ms. getGenerativeModel_error client m = None"
      and fails: "\<forall>n. \<forall>m \<in> set ms. isl (attempt_once client n m p)"
  shows "fst (model_loop client ms p k st) = None
       \<and> calls (snd (model_loop client ms p k st)) = calls st + length ms * k
       \<and> lastError (snd (model_loop client ms p k st))
           = (if ms \<noteq> [] \<and> 0 < k
              then Some (projl (attempt_once client (calls st + length ms * k - 1) (last ms) p))
              else lastError st)"
  using assms
proof (induction ms arbitrary: st)
  case Nil
  then show ?case by simp
next
  case (Cons m ms)
  let ?r = "attempt_loop client m p k 1 st"
  have f: "\<forall>n. isl (attempt_once client n m p)" using Cons.prems(2) by simp
  note A = attempt_loop_exhausted [OF f, of k 1 st]
  obtain st' where r: "?r = (None, st')" using A by (cases ?r) auto
  have c: "calls st' = calls st + k" using A r by simp
  have l: "lastError st' = (if 1 \<le> k then Some (projl (attempt_once client (calls st + (k - 1)) m p))
                            else lastError st)" using A r by simp
  have step: "model_loop client (m # ms) p k st = model_loop client ms p k st'"
    using Cons.prems(1) r by simp
  have IH: "fst (model_loop client ms p k st') = None
       \<and> calls (snd (model_loop client ms p k st')) = calls st' + length ms * k
       \<and> lastError (snd (model_loop client ms p k st'))
           = (if ms \<noteq> [] \<and> 0 < k
              then Some (projl (attempt_once client (calls st' + length ms * k - 1) (last ms) p))
              else lastError st')"
    using Cons.IH [of st'] Cons.prems by simp
  show ?case
  proof (cases "ms = []")
    case True
    show ?thesis unfolding step using IH c l True by auto
  next
    case False
    have "calls st + k + length ms * k - 1 = calls st + length (m # ms) * k - 1" by simp
    then show ?thesis unfolding step using IH c l False by auto
  qed
qed

text \<open>
  C3. When a model object is obtained for every model of the chain and every attempt
  (the generation call or the parsing of its response) fails, \<open>generateWithRetry\<close> fails
  with the error ``Failed to generate quiz with all models. Last error: ...'' carrying the
  message of the last attempt's error, after exactly as many generation calls as the
  chain has models times the attempts per model.
\<close>

theorem generateWithRetry_exhaustion:
  assumes "\<forall>m \<in> set MODEL_FALLBACK_CHAIN. getGenerativeModel_error client m = None"
      and "\<forall>n. \<forall>m \<in> set MODEL_FALLBACK_CHAIN. isl (attempt_once client n m prompt)"
      and "0 < maxRetries"
  shows "fst (generateWithRetry client prompt maxRetries) =
           Inl (''Failed to generate quiz with all models. Last error: ''
                @ projl (attempt_once client (length MODEL_FALLBACK_CHAIN * maxRetries - 1)
                           (last MODEL_FALLBACK_CHAIN) prompt))
       \<and> calls (snd (generateWithRetry client prompt maxRetries))
           = length MODEL_FALLBACK_CHAIN * maxRetries"
proof -
  let ?st0 = "\<lparr>calls = 0, lastError = None, waits = []\<rparr>"
  let ?r = "model_loop client MODEL_FALLBACK_CHAIN prompt maxRetries ?st0"
  note M = model_loop_exhausted [OF assms(1) assms(2), of maxRetries ?st0]
  obtain st where r: "?r = (None, st)" using M by (cases ?r) auto
  have ne: "MODEL_FALLBACK_CHAIN \<noteq> []" by (simp add: MODEL_FALLBACK_CHAIN_def)
  have c: "calls st = length MODEL_FALLBACK_CHAIN * maxRetries" using M r by simp
  have l: "lastError st = Some (projl (attempt_once client
              (length MODEL_FALLBACK_CHAIN * maxRetries - 1) (last MODEL_FALLBACK_CHAIN) prompt))"
    using M r ne assms(3) by simp
  show ?thesis using r c l by (simp add: generateWithRetry_def)
qed

theorem generateWithRetry_exhaustion_witness:
  "list_all (\<lambda>m. getGenerativeModel_error failing_client m = None) MODEL_FALLBACK_CHAIN
   \<and> (\<forall>n. list_all (\<lambda>m. isl (attempt_once failing_client n m ''prompt'')) MODEL_FALLBACK_CHAIN)
   \<and> fst (generateWithRetry failing_client ''prompt'' 3) =
        Inl ''Failed to generate quiz with all models. Last error: quota exceeded for gemini-2.5-flash''
   \<and> calls (snd (generateWithRetry failing_client ''prompt'' 3)) = 9"
proof -
  have h1: "\<forall>m \<in> set MODEL_FALLBACK_CHAIN. getGenerativeModel_error failing_client m = None"
    by (simp add: failing_client_def)
  have h2: "\<forall>n. \<forall>m \<in> set MODEL_FALLBACK_CHAIN. isl (attempt_once failing_client n m ''prompt'')"
    by (simp add: failing_client_def attempt_once_def)
  have e: "projl (attempt_once failing_client (length MODEL_FALLBACK_CHAIN * 3 - 1)
                    (last MODEL_FALLBACK_CHAIN) ''prompt'') = ''quota exceeded for gemini-2.5-flash''"
    by (simp add: failing_client_def attempt_once_def MODEL_FALLBACK_CHAIN_def)
  have n: "length MODEL_FALLBACK_CHAIN * 3 = 9" by (simp add: MODEL_FALLBACK_CHAIN_def)
  from generateWithRetry_exhaustion [OF h1 h2, of 3] e n
  have c: "fst (generateWithRetry failing_client ''prompt'' 3) =
        Inl ''Failed to generate quiz with all models. Last error: quota exceeded for gemini-2.5-flash''
   \<and> calls (snd (generateWithRetry failing_client ''prompt'' 3)) = 9"
    by simp
  from h1 h2 c show ?thesis by (simp add: list_all_iff)
qed

section \<open>Cache statistics: properties\<close>

lemma floor_rat_divide_numeral:
  "\<lfloor>numeral a / numeral b :: rat\<rfloor> = numeral a div numeral b"
  using floor_divide_of_int_eq [of "numeral a" "numeral b", where ?'a = rat] by simp

lemma floor_rat_one_divide_numeral:
  "\<lfloor>1 / numeral b :: rat\<rfloor> = 1 div numeral b"
  using floor_divide_of_int_eq [of 1 "numeral b", where ?'a = rat] by simp

lemmas floor_rat = floor_rat_divide_numeral floor_rat_one_divide_numeral

lemma parseFloat_toFixed1_zero: "parseFloat (toFixed1 0) = 0"
  by (simp add: parseFloat_def toFixed1_def to_double_def floor_rat)

text \<open>
  Known doubles: one tenth, one third, the sum of one tenth and two tenths, and a tie
  rounded to the even significand.
\<close>

lemma to_double_examples:
  "to_double (1 / 10) = 3602879701896397 / 2 ^ 55
   \<and> to_double (1 / 3) = 6004799503160661 / 2 ^ 54
   \<and> to_double (to_double (1 / 10) + to_double (2 / 10)) = 5404319552844596 / 2 ^ 54
   \<and> to_double (2 ^ 53 + 1) = 2 ^ 53 \<and> to_double (2 ^ 53 + 3) = 2 ^ 53 + 4
   \<and> to_double (3 / 4) = 3 / 4 \<and> to_double 100 = 100"
  by code_simp

text \<open>
  Double rounding shows in the last digit: 23 hits in 80 uses are 28.75 percent, the
  doubles give 28.749999999999996, and \<open>toFixed(1)\<close> prints 28.7.
\<close>

lemma hit_rate_rounding_example:
  "toFixed1 (hit_rate_percent 23 80) = 287 / 10 \<and> toFixed1 (23 / 80 * 100) = 288 / 10"
  by code_simp

lemma half_percent: "parseFloat (toFixed1 (to_double (to_double (1 / 2) * 100))) = 50"
  by code_simp

text \<open>
  The rounding of \<open>to_double\<close> is to 53 significant bits: the error is at most the
  number times \<open>2^-53\<close>.
\<close>

lemma pow2_powi: "pow2 k = 2 powi k"
  by (simp add: pow2_def power_int_def power_one_over)

lemma pow2_pos: "0 < pow2 k"
  by (simp add: pow2_powi)

lemma pow2_add: "pow2 (j + k) = pow2 j * pow2 k"
  by (simp add: pow2_powi power_int_add)

lemma pow2_nat: "0 \<le> k \<Longrightarrow> pow2 k = of_int (2 ^ nat k)"
  by (simp add: pow2_def)

lemma bit_length_bounds:
  "1 \<le> n \<Longrightarrow> 1 \<le> bit_length n \<and> 2 ^ nat (bit_length n - 1) \<le> n \<and> n < 2 ^ nat (bit_length n)"
proof (induction n rule: bit_length.induct)
  case (1 n)
  have b: "bit_length n = 1 + bit_length (n div 2)"
    using "1.prems" by (subst bit_length.simps) simp
  show ?case
  proof (cases "n = 1")
    case True
    have "bit_length (0::int) = 0" by (subst bit_length.simps) simp
    with True b show ?thesis by simp
  next
    case False
    with "1.prems" have m: "1 \<le> n div 2" by simp
    have n0: "\<not> n \<le> 0" using "1.prems" by simp
    from "1.IH" [OF n0 m]
    have IH: "1 \<le> bit_length (n div 2)" "2 ^ nat (bit_length (n div 2) - 1) \<le> n div 2"
      "n div 2 < 2 ^ nat (bit_length (n div 2))" by simp_all
    have e1: "nat (bit_length n - 1) = Suc (nat (bit_length (n div 2) - 1))"
      using IH(1) b by simp
    have e2: "nat (bit_length n) = Suc (nat (bit_length (n div 2)))"
      using IH(1) b by simp
    have "2 * (n div 2) \<le> n" by simp
    moreover have "n < 2 * (n div 2 + 1)" by simp
    ultimately show ?thesis using IH b unfolding e1 e2 by simp
  qed
qed


lemma floor_ge_one: "1 \<le> (x::rat) \<Longrightarrow> 1 \<le> \<lfloor>x\<rfloor>"
  by (simp add: le_floor_iff)

lemma exponent_of_bounds:
  assumes "0 < x"
  shows "pow2 (exponent_of x) \<le> x \<and> x < pow2 (exponent_of x + 1)"
proof (cases "1 \<le> x")
  case True
  let ?f = "\<lfloor>x\<rfloor>"
  from bit_length_bounds [OF floor_ge_one [OF True]]
  have b: "1 \<le> bit_length ?f" "2 ^ nat (bit_length ?f - 1) \<le> ?f" "?f < 2 ^ nat (bit_length ?f)"
    by simp_all
  have e: "exponent_of x = bit_length ?f - 1" using True by (simp add: exponent_of_def)
  have "pow2 (bit_length ?f - 1) = of_int (2 ^ nat (bit_length ?f - 1))"
    using b(1) by (intro pow2_nat) simp
  also have "\<dots> \<le> of_int ?f" using b(2) by (simp only: of_int_le_iff)
  also have "\<dots> \<le> x" by simp
  finally have lo: "pow2 (exponent_of x) \<le> x" by (simp only: e)
  have "?f + 1 \<le> 2 ^ nat (bit_length ?f)" using b(3) by simp
  then have "(of_int (?f + 1) :: rat) \<le> of_int (2 ^ nat (bit_length ?f))"
    by (simp only: of_int_le_iff)
  moreover have "x < of_int (?f + 1)" by simp linarith
  moreover have "pow2 (bit_length ?f) = of_int (2 ^ nat (bit_length ?f))"
    using b(1) by (intro pow2_nat) simp
  ultimately have "x < pow2 (exponent_of x + 1)" by (simp add: e)
  with lo show ?thesis by simp
next
  case False
  then have x1: "x < 1" by simp
  let ?y = "1 / x"
  have y1: "1 \<le> ?y" using assms x1 by (simp add: field_simps)
  let ?f = "\<lfloor>?y\<rfloor>"
  let ?k = "bit_length ?f - 1"
  from bit_length_bounds [OF floor_ge_one [OF y1]]
  have b: "1 \<le> bit_length ?f" "2 ^ nat ?k \<le> ?f" "?f < 2 ^ nat (bit_length ?f)"
    by simp_all
  have k0: "0 \<le> ?k" using b(1) by simp
  have pk: "pow2 ?k = of_int (2 ^ nat ?k)" using k0 by (rule pow2_nat)
  have pk1: "pow2 (?k + 1) = of_int (2 ^ nat (bit_length ?f))"
    using b(1) by (simp add: pow2_nat)
  have "pow2 ?k \<le> of_int ?f" unfolding pk using b(2) by (simp only: of_int_le_iff)
  also have "\<dots> \<le> ?y" by simp
  finally have ylo: "pow2 ?k \<le> ?y" .
  have "?f + 1 \<le> 2 ^ nat (bit_length ?f)" using b(3) by simp
  then have "(of_int (?f + 1) :: rat) \<le> pow2 (?k + 1)"
    unfolding pk1 by (simp only: of_int_le_iff)
  moreover have "?y < of_int (?f + 1)" by simp linarith
  ultimately have yhi: "?y < pow2 (?k + 1)" by simp
  have inv: "pow2 (- j) = 1 / pow2 j" for j
    using pow2_add [of "- j" j] pow2_pos [of j] by (simp add: pow2_def field_simps)
  have xhi: "x \<le> pow2 (- ?k)"
    unfolding inv using ylo assms pow2_pos [of ?k] by (simp add: field_simps)
  have xlo: "pow2 (- ?k - 1) < x"
  proof -
    have "pow2 (- ?k - 1) = 1 / pow2 (?k + 1)" using inv [of "?k + 1"] by simp
    also have "\<dots> < x" using yhi assms pow2_pos [of "?k + 1"] by (simp add: field_simps)
    finally show ?thesis .
  qed
  have two: "pow2 (- ?k + 1) = 2 * pow2 (- ?k)"
    using pow2_add [of "- ?k" 1] by (simp add: pow2_def)
  show ?thesis
  proof (cases "x = pow2 (- ?k)")
    case True
    then have e: "exponent_of x = - ?k" using False by (simp add: exponent_of_def Let_def)
    have "x < pow2 (- ?k + 1)" unfolding two using True pow2_pos [of "- ?k"] by simp
    with True show ?thesis by (simp add: e)
  next
    case ne: False
    then have e: "exponent_of x = - ?k - 1" using False by (simp add: exponent_of_def Let_def)
    have "x < pow2 (- ?k)" using xhi ne by simp
    with xlo show ?thesis by (simp add: e)
  qed
qed

lemma round_half_even_error: "\<bar>of_int (round_half_even x) - x\<bar> \<le> 1 / 2"
proof -
  have "of_int \<lfloor>x\<rfloor> \<le> x" "x < of_int \<lfloor>x\<rfloor> + 1" by simp_all linarith
  then show ?thesis by (auto simp: round_half_even_def Let_def abs_le_iff)
qed

lemma to_double_error: "\<bar>to_double x - x\<bar> \<le> \<bar>x\<bar> / 2 ^ 53"
proof (cases "x = 0")
  case True
  then show ?thesis by (simp add: to_double_def)
next
  case False
  define a where "a = \<bar>x\<bar>"
  define u where "u = pow2 (exponent_of a - 52)"
  define m where "m = round_half_even (a / u)"
  have a0: "0 < a" using False by (simp add: a_def)
  have u0: "0 < u" by (simp add: u_def pow2_pos)
  have t: "to_double x = sgn x * (of_int m * u)"
    using False by (simp add: to_double_def Let_def a_def u_def m_def)
  have x: "x = sgn x * a" by (simp add: a_def sgn_mult_abs)
  have "to_double x - x = sgn x * (of_int m * u - a)"
    by (subst (2) x) (simp add: t algebra_simps)
  then have d: "\<bar>to_double x - x\<bar> = \<bar>of_int m * u - a\<bar>"
    using False by (simp add: abs_mult abs_sgn_eq)
  have "of_int m * u - a = (of_int m - a / u) * u" using u0 by (simp add: field_simps)
  then have "\<bar>of_int m * u - a\<bar> = \<bar>of_int m - a / u\<bar> * u"
    using u0 by (simp add: abs_mult)
  also have "\<dots> \<le> 1 / 2 * u"
    using round_half_even_error [of "a / u"] u0 unfolding m_def by (intro mult_right_mono) simp_all
  finally have e1: "\<bar>of_int m * u - a\<bar> \<le> u / 2" by simp
  have "pow2 (exponent_of a) = pow2 (exponent_of a - 52) * pow2 52"
    using pow2_add [of "exponent_of a - 52" 52] by simp
  then have pu: "pow2 (exponent_of a) = u * 2 ^ 52" by (simp add: u_def pow2_def)
  from exponent_of_bounds [OF a0] have "u * 2 ^ 52 \<le> a" by (simp add: pu)
  then have "u / 2 \<le> a / 2 ^ 53" by (simp add: field_simps)
  with e1 d show ?thesis by (simp add: a_def)
qed

lemma toFixed1_error: "\<bar>toFixed1 x - x\<bar> \<le> 1 / 20"
proof -
  have near: "\<bar>of_int \<lfloor>y * 10 + 1 / 2\<rfloor> / 10 - y\<bar> \<le> 1 / 20" for y :: rat
  proof -
    define n where "n = \<lfloor>y * 10 + 1 / 2\<rfloor>"
    have "of_int n \<le> y * 10 + 1 / 2" "y * 10 + 1 / 2 < of_int n + 1"
      unfolding n_def by simp_all linarith
    then have "of_int n / 10 - y \<le> 1 / 20" "- (1 / 20) \<le> of_int n / 10 - y" by linarith+
    then show ?thesis unfolding n_def [symmetric] by linarith
  qed
  show ?thesis
  proof (cases "x < 0")
    case True
    have "toFixed1 x - x = - (of_int \<lfloor>(- x) * 10 + 1 / 2\<rfloor> / 10 - (- x))"
      using True by (simp add: toFixed1_def)
    then have "\<bar>toFixed1 x - x\<bar> = \<bar>of_int \<lfloor>(- x) * 10 + 1 / 2\<rfloor> / 10 - (- x)\<bar>"
      by (simp only: abs_minus_cancel)
    with near [of "- x"] show ?thesis by simp
  next
    case False
    with near [of x] show ?thesis by (simp add: toFixed1_def)
  qed
qed

text \<open>
  The hit rate reported is within 0.051 of the exact percentage, when the hits are between
  none and all of the uses.
\<close>

lemma hit_rate_accuracy:
  assumes "0 \<le> h" and "h \<le> t" and "0 < t"
  shows "\<bar>parseFloat (toFixed1 (hit_rate_percent h t)) - of_int h / of_int t * 100\<bar> \<le> 51 / 1000"
proof -
  define eps :: rat where "eps = 1 / 2 ^ 53"
  define x :: rat where "x = of_int h / of_int t"
  define d1 where "d1 = to_double x"
  define d2 where "d2 = to_double (d1 * 100)"
  define f where "f = toFixed1 d2"
  define p where "p = to_double f"
  have eps: "0 < eps" "eps \<le> 1 / 1000000" by (simp_all add: eps_def)
  have x: "0 \<le> x" "x \<le> 1" using assms by (simp_all add: x_def)
  have r: "parseFloat (toFixed1 (hit_rate_percent h t)) = p"
    using assms(3) by (simp add: hit_rate_percent_def parseFloat_def p_def f_def d2_def d1_def x_def)
  have e1: "\<bar>d1 - x\<bar> \<le> \<bar>x\<bar> * eps"
    using to_double_error [of x] by (simp add: d1_def eps_def)
  have e2: "\<bar>d2 - d1 * 100\<bar> \<le> \<bar>d1 * 100\<bar> * eps"
    using to_double_error [of "d1 * 100"] by (simp add: d2_def eps_def)
  have e3: "\<bar>f - d2\<bar> \<le> 1 / 20" unfolding f_def by (rule toFixed1_error)
  have e4: "\<bar>p - f\<bar> \<le> \<bar>f\<bar> * eps"
    using to_double_error [of f] by (simp add: p_def eps_def)
  have b1: "\<bar>d1 - x\<bar> \<le> 1 / 1000000"
  proof -
    have "\<bar>x\<bar> * eps \<le> 1 * (1 / 1000000)" using x eps by (intro mult_mono) simp_all
    with e1 show ?thesis by simp
  qed
  then have d1: "\<bar>d1\<bar> \<le> 2" using x by linarith
  have b2: "\<bar>d2 - d1 * 100\<bar> \<le> 200 / 1000000"
  proof -
    have "\<bar>d1 * 100\<bar> * eps \<le> 200 * (1 / 1000000)"
      using d1 eps by (intro mult_mono) (simp_all add: abs_mult)
    with e2 show ?thesis by simp
  qed
  have d2: "\<bar>d2\<bar> \<le> 201" using b2 d1 by linarith
  have fb: "\<bar>f\<bar> \<le> 202" using e3 d2 by linarith
  have b4: "\<bar>p - f\<bar> \<le> 202 / 1000000"
  proof -
    have "\<bar>f\<bar> * eps \<le> 202 * (1 / 1000000)" using fb eps by (intro mult_mono) simp_all
    with e4 show ?thesis by simp
  qed
  have "\<bar>p - x * 100\<bar> \<le> 51 / 1000" using b1 b2 e3 b4 by linarith
  then show ?thesis by (simp add: r x_def)
qed

lemma sum_list_at_least_length:
  "\<forall>x \<in> set xs. 1 \<le> f x \<Longrightarrow> int (length xs) \<le> sum_list (map f xs)"
  by (induction xs) auto

lemma distinct_keys_at_most_uses:
  assumes "\<forall>q \<in> set xs. 1 \<le> usageCount q"
  shows "int (card (cacheKey ` set xs)) \<le> sum_list (map usageCount xs)"
proof -
  have "card (cacheKey ` set xs) \<le> card (set xs)" by (intro card_image_le) simp
  also have "\<dots> \<le> length xs" by (rule card_length)
  finally have "int (card (cacheKey ` set xs)) \<le> int (length xs)" by simp
  with sum_list_at_least_length [OF assms] show ?thesis by simp
qed

text \<open>
  C9, as the code has it. The query succeeding and \<open>bookId\<close> being an \<open>ObjectId\<close>: with
  no quiz for the book, the aggregate is all zero. Otherwise it gives the number of quizzes
  of the book, the number of distinct cache keys among them, and as hit rate a percentage
  with one decimal: (sum of usageCount - distinct keys) / sum of usageCount, times 100, both
  operations in double arithmetic, then \<open>toFixed(1)\<close>; or 0 when the sum of usageCount is
  not positive. When every quiz of the book has been used at least once (so it is in every
  state the code reaches, lemma \<open>reachable_used\<close>), the rate given is within 0.051 of the
  exact percentage.
\<close>

theorem getCacheStats_aggregate:
  assumes "find_error e = None" and "ObjectId_isValid bookId"
  shows "(filter (\<lambda>q. quiz_bookId q = ObjectId_toHexString bookId) qs = [] \<longrightarrow>
            getCacheStats e qs bookId =
              Inr \<lparr>totalQuizzes = 0, uniqueConfigurations = 0, cacheHitRate = 0,
                   tokensSaved = 0, topConfigurations = []\<rparr>)
       \<and> (filter (\<lambda>q. quiz_bookId q = ObjectId_toHexString bookId) qs \<noteq> [] \<longrightarrow>
            (\<exists>s. getCacheStats e qs bookId = Inr s
              \<and> totalQuizzes s = length (filter (\<lambda>q. quiz_bookId q = ObjectId_toHexString bookId) qs)
              \<and> uniqueConfigurations s
                  = card (cacheKey ` set (filter (\<lambda>q. quiz_bookId q = ObjectId_toHexString bookId) qs))
              \<and> cacheHitRate s
                  = (let total = sum_list (map usageCount
                                   (filter (\<lambda>q. quiz_bookId q = ObjectId_toHexString bookId) qs));
                         uniq = int (card (cacheKey ` set
                                   (filter (\<lambda>q. quiz_bookId q = ObjectId_toHexString bookId) qs)))
                     in if total > 0
                        then parseFloat (toFixed1
                               (to_double (to_double (of_int (total - uniq) / of_int total) * 100)))
                        else 0)
              \<and> ((\<forall>q \<in> set (filter (\<lambda>q. quiz_bookId q = ObjectId_toHexString bookId) qs).
                      1 \<le> usageCount q) \<longrightarrow>
                   \<bar>cacheHitRate s
                      - (of_int (sum_list (map usageCount
                                   (filter (\<lambda>q. quiz_bookId q = ObjectId_toHexString bookId) qs)))
                         - of_nat (card (cacheKey ` set
                                   (filter (\<lambda>q. quiz_bookId q = ObjectId_toHexString bookId) qs))))
                        / of_int (sum_list (map usageCount
                                   (filter (\<lambda>q. quiz_bookId q = ObjectId_toHexString bookId) qs)))
                        * 100\<bar> \<le> 51 / 1000)))"
proof -
  let ?found = "filter (\<lambda>q. quiz_bookId q = ObjectId_toHexString bookId) qs"
  let ?total = "sum_list (map usageCount ?found)"
  let ?uniq = "int (card (cacheKey ` set ?found))"
  have u: "length (remdups (map cacheKey xs)) = card (cacheKey ` set xs)" for xs :: "quiz list"
    by (simp add: length_remdups_card_conv)
  have main: "(?found = [] \<longrightarrow>
            getCacheStats e qs bookId =
              Inr \<lparr>totalQuizzes = 0, uniqueConfigurations = 0, cacheHitRate = 0,
                   tokensSaved = 0, topConfigurations = []\<rparr>)
       \<and> (?found \<noteq> [] \<longrightarrow>
            (\<exists>s. getCacheStats e qs bookId = Inr s
              \<and> totalQuizzes s = length ?found
              \<and> uniqueConfigurations s = card (cacheKey ` set ?found)
              \<and> cacheHitRate s = parseFloat (toFixed1 (hit_rate_percent (?total - ?uniq) ?total))))"
    using assms by (simp add: getCacheStats_def Let_def u)
  have rate: "parseFloat (toFixed1 (hit_rate_percent (?total - ?uniq) ?total))
                = (let total = ?total; uniq = ?uniq
                   in if total > 0
                      then parseFloat (toFixed1
                             (to_double (to_double (of_int (total - uniq) / of_int total) * 100)))
                      else 0)"
    by (simp add: hit_rate_percent_def Let_def parseFloat_toFixed1_zero)
  have acc: "\<bar>parseFloat (toFixed1 (hit_rate_percent (?total - ?uniq) ?total))
                - (of_int ?total - of_nat (card (cacheKey ` set ?found))) / of_int ?total * 100\<bar>
               \<le> 51 / 1000"
    if ne: "?found \<noteq> []" and used: "\<forall>q \<in> set ?found. 1 \<le> usageCount q"
  proof -
    have le: "?uniq \<le> ?total" using used by (rule distinct_keys_at_most_uses)
    have "0 < length ?found" using ne by simp
    then have pos: "0 < ?total" using sum_list_at_least_length [OF used] by linarith
    from hit_rate_accuracy [of "?total - ?uniq" ?total] le pos
    show ?thesis by simp
  qed
  show ?thesis
  proof (intro conjI impI)
    assume "?found = []"
    with main show "getCacheStats e qs bookId =
              Inr \<lparr>totalQuizzes = 0, uniqueConfigurations = 0, cacheHitRate = 0,
                   tokensSaved = 0, topConfigurations = []\<rparr>" by blast
  next
    assume ne: "?found \<noteq> []"
    with main obtain s where s: "getCacheStats e qs bookId = Inr s"
      "totalQuizzes s = length ?found" "uniqueConfigurations s = card (cacheKey ` set ?found)"
      "cacheHitRate s = parseFloat (toFixed1 (hit_rate_percent (?total - ?uniq) ?total))"
      by blast
    from s(4) rate have r: "cacheHitRate s
                  = (let total = ?total; uniq = ?uniq
                     in if total > 0
                        then parseFloat (toFixed1
                               (to_double (to_double (of_int (total - uniq) / of_int total) * 100)))
                        else 0)" by simp
    from acc [OF ne] s(4)
    have a: "(\<forall>q \<in> set ?found. 1 \<le> usageCount q) \<longrightarrow>
                   \<bar>cacheHitRate s
                      - (of_int ?total - of_nat (card (cacheKey ` set ?found))) / of_int ?total * 100\<bar>
                     \<le> 51 / 1000" by simp
    from s(1,2,3) r a
    show "\<exists>s. getCacheStats e qs bookId = Inr s
              \<and> totalQuizzes s = length ?found
              \<and> uniqueConfigurations s = card (cacheKey ` set ?found)
              \<and> cacheHitRate s
                  = (let total = ?total; uniq = ?uniq
                     in if total > 0
                        then parseFloat (toFixed1
                               (to_double (to_double (of_int (total - uniq) / of_int total) * 100)))
                        else 0)
              \<and> ((\<forall>q \<in> set ?found. 1 \<le> usageCount q) \<longrightarrow>
                   \<bar>cacheHitRate s
                      - (of_int ?total - of_nat (card (cacheKey ` set ?found))) / of_int ?total * 100\<bar>
                     \<le> 51 / 1000)"
      by blast
  qed
qed

theorem getCacheStats_aggregate_witness:
  "find_error sample_env = None
   \<and> ObjectId_isValid ''0123456789abcdef01234567'' \<and> ObjectId_isValid sample_id
   \<and> filter (\<lambda>q. quiz_bookId q = ObjectId_toHexString ''0123456789abcdef01234567'') [used_quiz] = []
   \<and> getCacheStats sample_env [used_quiz] ''0123456789abcdef01234567'' =
        Inr \<lparr>totalQuizzes = 0, uniqueConfigurations = 0, cacheHitRate = 0,
             tokensSaved = 0, topConfigurations = []\<rparr>
   \<and> filter (\<lambda>q. quiz_bookId q = ObjectId_toHexString sample_id) [used_quiz] \<noteq> []
   \<and> list_all (\<lambda>q. 1 \<le> usageCount q) [used_quiz]
   \<and> totalQuizzes (projr (getCacheStats sample_env [used_quiz] sample_id)) = 1
   \<and> uniqueConfigurations (projr (getCacheStats sample_env [used_quiz] sample_id)) = 1
   \<and> cacheHitRate (projr (getCacheStats sample_env [used_quiz] sample_id)) = 50
   \<and> \<bar>cacheHitRate (projr (getCacheStats sample_env [used_quiz] sample_id))
        - (2 - 1) / 2 * 100\<bar> \<le> 51 / 1000"
proof -
  have h: "find_error sample_env = None" by (simp add: sample_env_def)
  have v0: "ObjectId_isValid ''0123456789abcdef01234567''" by code_simp
  have v1: "ObjectId_isValid sample_id" by code_simp
  have x0: "ObjectId_toHexString ''0123456789abcdef01234567'' = ''0123456789abcdef01234567''"
    by code_simp
  have x1: "ObjectId_toHexString sample_id = sample_id" by code_simp
  have f0: "filter (\<lambda>q. quiz_bookId q = ObjectId_toHexString ''0123456789abcdef01234567'')
              [used_quiz] = []"
    unfolding x0 by (simp add: used_quiz_def generated_quiz_def sample_id_def)
  have f1: "filter (\<lambda>q. quiz_bookId q = ObjectId_toHexString sample_id) [used_quiz] = [used_quiz]"
    unfolding x1 by (simp add: used_quiz_def generated_quiz_def)
  have us: "usageCount used_quiz = 2" by (simp add: used_quiz_def generated_quiz_def)
  from getCacheStats_aggregate [OF h v0, of "[used_quiz]"] f0
  have a: "getCacheStats sample_env [used_quiz] ''0123456789abcdef01234567'' =
        Inr \<lparr>totalQuizzes = 0, uniqueConfigurations = 0, cacheHitRate = 0,
             tokensSaved = 0, topConfigurations = []\<rparr>" by blast
  have ne: "[used_quiz] \<noteq> []" by simp
  from getCacheStats_aggregate [OF h v1, of "[used_quiz]", unfolded f1] ne
  obtain s where s: "getCacheStats sample_env [used_quiz] sample_id = Inr s"
    "totalQuizzes s = length [used_quiz]"
    "uniqueConfigurations s = card (cacheKey ` set [used_quiz])"
    "cacheHitRate s
       = (let total = sum_list (map usageCount [used_quiz]);
              uniq = int (card (cacheKey ` set [used_quiz]))
          in if total > 0
             then parseFloat (toFixed1 (to_double (to_double (of_int (total - uniq) / of_int total) * 100)))
             else 0)"
    "(\<forall>q \<in> set [used_quiz]. 1 \<le> usageCount q) \<longrightarrow>
       \<bar>cacheHitRate s
          - (of_int (sum_list (map usageCount [used_quiz])) - of_nat (card (cacheKey ` set [used_quiz])))
            / of_int (sum_list (map usageCount [used_quiz])) * 100\<bar> \<le> 51 / 1000"
    by blast
  have b: "totalQuizzes (projr (getCacheStats sample_env [used_quiz] sample_id)) = 1
     \<and> uniqueConfigurations (projr (getCacheStats sample_env [used_quiz] sample_id)) = 1
     \<and> cacheHitRate (projr (getCacheStats sample_env [used_quiz] sample_id)) = 50"
    using s(1-4) us half_percent by (simp add: Let_def)
  have c: "\<bar>cacheHitRate (projr (getCacheStats sample_env [used_quiz] sample_id))
        - (2 - 1) / 2 * 100\<bar> \<le> 51 / 1000"
    using s(1,5) us by simp
  have l: "list_all (\<lambda>q. 1 \<le> usageCount q) [used_quiz]" using us by simp
  from h v0 v1 f0 f1 a b c l show ?thesis by simp
qed

theorem getCacheStats_rate_counterexample:
  "sum_list (map usageCount [used_quiz]) = 2
   \<and> card (cacheKey ` set [used_quiz]) = 1
   \<and> filter (\<lambda>q. quiz_bookId q = ObjectId_toHexString sample_id) [used_quiz] = [used_quiz]
   \<and> cacheHitRate (projr (getCacheStats sample_env [used_quiz] sample_id)) = 50
   \<and> cacheHitRate (projr (getCacheStats sample_env [used_quiz] sample_id))
       \<noteq> (of_int (sum_list (map usageCount [used_quiz])) - of_nat (card (cacheKey ` set [used_quiz])))
           / of_int (sum_list (map usageCount [used_quiz]))"
proof -
  have v1: "ObjectId_isValid sample_id" by code_simp
  have x1: "ObjectId_toHexString sample_id = sample_id" by code_simp
  have f1: "filter (\<lambda>q. quiz_bookId q = ObjectId_toHexString sample_id) [used_quiz] = [used_quiz]"
    unfolding x1 by (simp add: used_quiz_def generated_quiz_def)
  have u: "usageCount used_quiz = 2" by (simp add: used_quiz_def generated_quiz_def)
  have b: "quiz_bookId used_quiz = sample_id" by (simp add: used_quiz_def generated_quiz_def)
  have v: "cacheHitRate (projr (getCacheStats sample_env [used_quiz] sample_id)) = 50"
    using half_percent v1 u
    by (simp add: getCacheStats_def x1 b sample_env_def Let_def hit_rate_percent_def)
  show ?thesis using v u f1 by simp
qed

section \<open>Cache store: properties\<close>

lemma findCachedQuiz_steps:
  "findCachedQuiz e qs bookId pr n d
     = lookup_save e qs (lookup_read e qs (generateCacheKey bookId pr n d))"
  by (simp add: findCachedQuiz_def lookup_save_def lookup_read_def Let_def split: option.splits)

lemma findOne_from_None: "findOne_from i key qs = None \<longleftrightarrow> key \<notin> cacheKey ` set qs"
  by (induction qs arbitrary: i) auto

lemma findOne_from_Some:
  "findOne_from i key qs = Some (j, q) \<Longrightarrow>
     i \<le> j \<and> j - i < length qs \<and> qs ! (j - i) = q \<and> cacheKey q = key"
proof (induction qs arbitrary: i)
  case Nil
  then show ?case by simp
next
  case (Cons x xs)
  show ?case
  proof (cases "cacheKey x = key")
    case True
    with Cons.prems show ?thesis by simp
  next
    case False
    with Cons.prems have "findOne_from (i + 1) key xs = Some (j, q)" by simp
    from Cons.IH [OF this]
    have "i + 1 \<le> j" "j - (i + 1) < length xs" "xs ! (j - (i + 1)) = q" "cacheKey q = key"
      by simp_all
    moreover from \<open>i + 1 \<le> j\<close> have "j - i = Suc (j - (i + 1))" by simp
    ultimately show ?thesis by simp
  qed
qed

lemma findOne_Some:
  "findOne qs key = Some (j, q) \<Longrightarrow> j < length qs \<and> qs ! j = q \<and> cacheKey q = key"
  using findOne_from_Some [of 0 key qs j q] by (simp add: findOne_def)

lemma findOne_stored:
  assumes "distinct (map cacheKey qs)" and "q \<in> set qs"
  shows "\<exists>j < length qs. qs ! j = q \<and> findOne qs (cacheKey q) = Some (j, q)"
proof -
  have "findOne qs (cacheKey q) \<noteq> None"
    using assms(2) by (simp add: findOne_def findOne_from_None)
  then obtain j q' where f: "findOne qs (cacheKey q) = Some (j, q')" by (cases "findOne qs (cacheKey q)") auto
  from findOne_Some [OF f] have j: "j < length qs" "qs ! j = q'" "cacheKey q' = cacheKey q"
    by simp_all
  then have "q' \<in> set qs" by auto
  moreover have "inj_on cacheKey (set qs)" using assms(1) by (simp add: distinct_map)
  ultimately have "q' = q" using j(3) assms(2) by (simp add: inj_on_def)
  with f j show ?thesis by blast
qed

lemma update_by_key:
  assumes "distinct (map cacheKey qs)" and "j < length qs" and "cacheKey q' = cacheKey (qs ! j)"
  shows "qs[j := q'] = map (\<lambda>x. if cacheKey x = cacheKey (qs ! j) then q' else x) qs"
proof (rule nth_equalityI)
  show "length (qs[j := q']) = length (map (\<lambda>x. if cacheKey x = cacheKey (qs ! j) then q' else x) qs)"
    by simp
next
  fix k assume "k < length (qs[j := q'])"
  then have k: "k < length qs" by simp
  show "qs[j := q'] ! k = map (\<lambda>x. if cacheKey x = cacheKey (qs ! j) then q' else x) qs ! k"
  proof (cases "k = j")
    case True
    with k show ?thesis by simp
  next
    case False
    have "map cacheKey qs ! k \<noteq> map cacheKey qs ! j"
      using assms(1,2) k False by (simp add: nth_eq_iff_index_eq del: nth_map)
    then have "cacheKey (qs ! k) \<noteq> cacheKey (qs ! j)" using k assms(2) by simp
    with k False show ?thesis by simp
  qed
qed

lemma findCachedQuiz_found:
  assumes "findOne_error e = None" and "increment_save_error e = None"
      and "findOne qs (generateCacheKey bookId pr n d) = Some (j, q)"
  shows "findCachedQuiz e qs bookId pr n d =
           (Some (q\<lparr>usageCount := usageCount q + 1, lastUsedAt := now_lookup e\<rparr>),
            qs[j := q\<lparr>usageCount := usageCount q + 1, lastUsedAt := now_lookup e\<rparr>])"
  using assms by (simp add: findCachedQuiz_def incrementUsage_def Let_def)

lemma findCachedQuiz_stored:
  assumes "findOne_error e = None" and "increment_save_error e = None"
      and "distinct (map cacheKey qs)" and "q \<in> set qs"
      and "cacheKey q = generateCacheKey bookId pr n d"
  shows "findCachedQuiz e qs bookId pr n d =
           (Some (q\<lparr>usageCount := usageCount q + 1, lastUsedAt := now_lookup e\<rparr>),
            map (\<lambda>x. if cacheKey x = cacheKey q
                      then q\<lparr>usageCount := usageCount q + 1, lastUsedAt := now_lookup e\<rparr>
                      else x) qs)"
proof -
  let ?q = "q\<lparr>usageCount := usageCount q + 1, lastUsedAt := now_lookup e\<rparr>"
  from findOne_stored [OF assms(3,4)] obtain j where
    j: "j < length qs" "qs ! j = q" "findOne qs (cacheKey q) = Some (j, q)" by blast
  have "findCachedQuiz e qs bookId pr n d = (Some ?q, qs[j := ?q])"
    using assms(1,2) j(3) assms(5) by (simp add: findCachedQuiz_found)
  moreover have "qs[j := ?q] = map (\<lambda>x. if cacheKey x = cacheKey (qs ! j) then ?q else x) qs"
    using assms(3) j(1,2) by (intro update_by_key) simp_all
  ultimately show ?thesis using j(2) by simp
qed

lemma findCachedQuiz_miss_keeps:
  "fst (findCachedQuiz e qs bookId pr n d) = None \<Longrightarrow> findCachedQuiz e qs bookId pr n d = (None, qs)"
  by (auto simp: findCachedQuiz_def incrementUsage_def Let_def split: option.splits sum.splits)

text \<open>The unique index on \<open>cacheKey\<close> is an invariant of the store under both operations.\<close>

lemma saveQuizToCache_keeps_keys_unique:
  assumes "distinct (map cacheKey qs)" and "saveQuizToCache e qs dat = Inr (q, qs')"
  shows "distinct (map cacheKey qs')"
  using assms by (auto simp: saveQuizToCache_def Let_def split: option.splits if_splits)

lemma findCachedQuiz_keeps_keys:
  "map cacheKey (snd (findCachedQuiz e qs bookId pr n d)) = map cacheKey qs"
proof (cases "findOne_error e")
  case (Some msg)
  then show ?thesis by (simp add: findCachedQuiz_def)
next
  case None
  show ?thesis
  proof (cases "findOne qs (generateCacheKey bookId pr n d)")
    case inner: None
    with None show ?thesis by (simp add: findCachedQuiz_def)
  next
    case (Some found)
    obtain j q where jq: "found = (j, q)" by (cases found)
    from findOne_Some [of qs "generateCacheKey bookId pr n d" j q] Some jq
    have j: "j < length qs" "qs ! j = q" by simp_all
    have "map cacheKey (qs[j := q\<lparr>usageCount := usageCount q + 1, lastUsedAt := now_lookup e\<rparr>])
            = map cacheKey qs"
      using j by (simp add: map_update list_update_same_conv)
    with None Some jq show ?thesis
      by (cases "increment_save_error e")
         (simp_all add: findCachedQuiz_def incrementUsage_def Let_def)
  qed
qed


section \<open>Cache key: one key, one book and one page range\<close>













section \<open>Request handler: properties\<close>

lemma handler_with_book:
  assumes "req_method req = ''POST''" and "validate_request req = Inr (bookId, n, d)"
      and "connect_error e = None" and "findBook_error e = None"
      and "Book_findById store bookId = Some b"
  shows "handler e store req = with_book e (quizzes store) req b bookId n d"
  using assms by (simp add: handler_def)

lemma error_response_not_Generated: "error_response msg \<noteq> Generated q w"
  by (simp add: error_response_def)

lemma min_error_Nil: "min_error path v m = [] \<longleftrightarrow> m \<le> v"
  by (simp add: min_error_def)

lemma saveQuizToCache_Inr:
  assumes "saveQuizToCache e qs dat = Inr (q, qs')"
  shows "quiz_pageRange q = qd_pageRange dat
       \<and> quiz_numberOfQuestions q = qd_numberOfQuestions dat
       \<and> cacheKey q = generateCacheKey (qd_bookId dat) (Some (qd_pageRange dat))
                         (qd_numberOfQuestions dat) (qd_difficulty dat)
       \<and> usageCount q = 1 \<and> qs' = qs @ [q]
       \<and> quiz_bookId q = qd_bookId dat \<and> quiz_difficulty q = qd_difficulty dat
       \<and> 1 \<le> range_start (qd_pageRange dat) \<and> 1 \<le> range_end (qd_pageRange dat)
       \<and> 1 \<le> qd_numberOfQuestions dat"
proof -
  from assms have v: "quiz_validation_errors dat = []"
    by (auto simp: saveQuizToCache_def Let_def split: if_splits)
  then have m: "1 \<le> range_start (qd_pageRange dat) \<and> 1 \<le> range_end (qd_pageRange dat)
       \<and> 1 \<le> qd_numberOfQuestions dat"
    by (simp add: quiz_validation_errors_def min_error_Nil)
  from assms v have "quiz_pageRange q = qd_pageRange dat
       \<and> quiz_numberOfQuestions q = qd_numberOfQuestions dat
       \<and> cacheKey q = generateCacheKey (qd_bookId dat) (Some (qd_pageRange dat))
                         (qd_numberOfQuestions dat) (qd_difficulty dat)
       \<and> usageCount q = 1 \<and> qs' = qs @ [q]
       \<and> quiz_bookId q = qd_bookId dat \<and> quiz_difficulty q = qd_difficulty dat"
    by (auto simp: saveQuizToCache_def Let_def split: option.splits if_splits)
  with m show ?thesis by simp
qed

lemma saveQuizToCache_fresh:
  assumes "saveQuizToCache e qs dat = Inr (q, qs')"
  shows "cacheKey q \<notin> set (map cacheKey qs)"
  using assms by (auto simp: saveQuizToCache_def Let_def split: option.splits if_splits)

lemma generate_and_save_Generated:
  assumes "fst (generate_and_save e qs req b actual n d content tr) = Generated q w"
  shows "quiz_pageRange q = actual
       \<and> cacheKey q = generateCacheKey (book_id b) (Some actual) (quiz_numberOfQuestions q) d
       \<and> fst (snd (generate_and_save e qs req b actual n d content tr)) = qs @ [q]
       \<and> quiz_bookId q = book_id b \<and> quiz_difficulty q = d
       \<and> 1 \<le> range_start actual \<and> 1 \<le> range_end actual \<and> usageCount q = 1"
proof -
  let ?g = "generateQuiz (ai e) (fst (truncateText content MAX_CHARS)) n d"
  from assms have ne: "trim content \<noteq> []"
    by (auto simp: generate_and_save_def)
  from assms ne obtain qns st where g: "?g = (Inr qns, st)"
    by (cases ?g; cases "fst ?g")
       (auto simp: generate_and_save_def Let_def error_response_not_Generated)
  let ?dat = "\<lparr>qd_bookId = book_id b,
       qd_title = (case req_pageRange req of
                     Some r \<Rightarrow> book_title b @ '' - Pages '' @ string_of_int (range_start r)
                                 @ ''-'' @ string_of_int (range_end r)
                   | None \<Rightarrow> book_title b @ '' - Full Book Quiz''),
       qd_generatedDate = now_generated e, qd_pageRange = actual, qd_questions = qns,
       qd_difficulty = d, qd_numberOfQuestions = int (length qns)\<rparr>"
  from assms ne g obtain qs' where s: "saveQuizToCache e qs ?dat = Inr (q, qs')"
    by (cases "saveQuizToCache e qs ?dat")
       (auto simp: generate_and_save_def Let_def error_response_not_Generated)
  from saveQuizToCache_Inr [OF s] ne g s show ?thesis
    by (simp add: generate_and_save_def Let_def)
qed

lemma generate_and_save_fresh:
  assumes "fst (generate_and_save e qs req b actual n d content tr) = Generated q w"
  shows "cacheKey q \<notin> set (map cacheKey qs)"
proof -
  let ?g = "generateQuiz (ai e) (fst (truncateText content MAX_CHARS)) n d"
  from assms have ne: "trim content \<noteq> []"
    by (auto simp: generate_and_save_def)
  from assms ne obtain qns st where g: "?g = (Inr qns, st)"
    by (cases ?g; cases "fst ?g")
       (auto simp: generate_and_save_def Let_def error_response_not_Generated)
  let ?dat = "\<lparr>qd_bookId = book_id b,
       qd_title = (case req_pageRange req of
                     Some r \<Rightarrow> book_title b @ '' - Pages '' @ string_of_int (range_start r)
                                 @ ''-'' @ string_of_int (range_end r)
                   | None \<Rightarrow> book_title b @ '' - Full Book Quiz''),
       qd_generatedDate = now_generated e, qd_pageRange = actual, qd_questions = qns,
       qd_difficulty = d, qd_numberOfQuestions = int (length qns)\<rparr>"
  from assms ne g obtain qs' where s: "saveQuizToCache e qs ?dat = Inr (q, qs')"
    by (cases "saveQuizToCache e qs ?dat")
       (auto simp: generate_and_save_def Let_def error_response_not_Generated)
  then show ?thesis by (rule saveQuizToCache_fresh)
qed

lemma cache_miss_Generated:
  assumes "fst (cache_miss e qs req b actual n d tr) = Generated q w"
  shows "quiz_pageRange q = actual
       \<and> cacheKey q = generateCacheKey (book_id b) (Some actual) (quiz_numberOfQuestions q) d
       \<and> fst (snd (cache_miss e qs req b actual n d tr)) = qs @ [q]
       \<and> quiz_bookId q = book_id b \<and> quiz_difficulty q = d
       \<and> 1 \<le> range_start actual \<and> 1 \<le> range_end actual \<and> usageCount q = 1
       \<and> (\<forall>r. req_pageRange req = Some r \<longrightarrow> range_end r \<le> totalPages b)"
proof (cases "req_pageRange req")
  case None
  with assms show ?thesis
    by (simp add: cache_miss_def Let_def generate_and_save_Generated)
next
  case (Some r)
  with assms have le: "\<not> range_end r > totalPages b"
    by (auto simp: cache_miss_def)
  from assms Some le obtain content where
    c: "extractTextFromPages b (range_start r) (range_end r) = Inr content"
    by (cases "extractTextFromPages b (range_start r) (range_end r)")
       (auto simp: cache_miss_def error_response_not_Generated)
  with assms Some le show ?thesis
    by (simp add: cache_miss_def generate_and_save_Generated)
qed

lemma cache_miss_fresh:
  assumes "fst (cache_miss e qs req b actual n d tr) = Generated q w"
  shows "cacheKey q \<notin> set (map cacheKey qs)"
proof (cases "req_pageRange req")
  case None
  with assms show ?thesis
    by (auto simp: cache_miss_def Let_def dest: generate_and_save_fresh)
next
  case (Some r)
  with assms have le: "\<not> range_end r > totalPages b"
    by (auto simp: cache_miss_def)
  from assms Some le obtain content where
    c: "extractTextFromPages b (range_start r) (range_end r) = Inr content"
    by (cases "extractTextFromPages b (range_start r) (range_end r)")
       (auto simp: cache_miss_def error_response_not_Generated)
  with assms Some le show ?thesis
    by (auto simp: cache_miss_def dest: generate_and_save_fresh)
qed

lemma with_book_Generated:
  assumes "fst (with_book e qs req b bookId n d) = Generated q w"
  shows "quiz_pageRange q = actualPageRange req b
       \<and> cacheKey q = generateCacheKey (book_id b) (Some (actualPageRange req b))
                         (quiz_numberOfQuestions q) d
       \<and> q \<in> set (fst (snd (with_book e qs req b bookId n d)))"
proof -
  let ?f = "findCachedQuiz e qs bookId (Some (actualPageRange req b)) n d"
  from assms obtain qs' where f: "?f = (None, qs')"
    by (cases ?f; cases "fst ?f") (auto simp: with_book_def Let_def)
  with assms have "fst (cache_miss e qs' req b (actualPageRange req b) n d
        [ConnectDB, FindBook bookId,
         CacheLookup (generateCacheKey bookId (Some (actualPageRange req b)) n d)]) = Generated q w"
    by (simp add: with_book_def Let_def)
  from cache_miss_Generated [OF this] f show ?thesis
    by (simp add: with_book_def Let_def)
qed




section \<open>The states the code reaches\<close>

lemma uploaded_book_pages: "uploaded_book b \<Longrightarrow> pages b \<noteq> [] \<and> 1 \<le> totalPages b"
  by (cases "pages b") (auto simp: uploaded_book_def)

lemma stored_ok_used [simp]:
  "stored_ok books (q\<lparr>usageCount := u, lastUsedAt := t\<rparr>) = stored_ok books q"
  by (simp add: stored_ok_def split: option.splits)

lemma findCachedQuiz_keeps_stored_ok:
  assumes "list_all (stored_ok books) qs"
  shows "list_all (stored_ok books) (snd (findCachedQuiz e qs bookId pr n d))"
proof (cases "fst (findCachedQuiz e qs bookId pr n d)")
  case None
  then show ?thesis using assms by (simp add: findCachedQuiz_miss_keeps)
next
  case (Some hit)
  then obtain j q where f: "findOne qs (generateCacheKey bookId pr n d) = Some (j, q)"
    and r: "snd (findCachedQuiz e qs bookId pr n d)
              = qs[j := q\<lparr>usageCount := usageCount q + 1, lastUsedAt := now_lookup e\<rparr>]"
    by (auto simp: findCachedQuiz_def incrementUsage_def Let_def split: option.splits)
  from findOne_Some [OF f] have j: "j < length qs" "qs ! j = q" by simp_all
  then have "stored_ok books q" using assms by (auto simp: list_all_length)
  then show ?thesis
    unfolding r using assms j(1)
    by (auto simp: list_all_length nth_list_update)
qed

lemma generate_and_save_store:
  "fst (snd (generate_and_save e qs req b actual n d content tr)) = qs
   \<or> (\<exists>q w. fst (generate_and_save e qs req b actual n d content tr) = Generated q w)"
  by (auto simp: generate_and_save_def Let_def split: prod.splits sum.splits)

lemma cache_miss_store:
  "fst (snd (cache_miss e qs req b actual n d tr)) = qs
   \<or> (\<exists>q w. fst (cache_miss e qs req b actual n d tr) = Generated q w)"
proof (cases "req_pageRange req")
  case None
  with generate_and_save_store show ?thesis by (simp add: cache_miss_def Let_def)
next
  case (Some r)
  show ?thesis
  proof (cases "range_end r > totalPages b")
    case True
    with Some show ?thesis by (simp add: cache_miss_def)
  next
    case False
    show ?thesis
    proof (cases "extractTextFromPages b (range_start r) (range_end r)")
      case (Inl msg)
      with Some False show ?thesis by (simp add: cache_miss_def)
    next
      case (Inr content)
      with Some False generate_and_save_store show ?thesis by (simp add: cache_miss_def)
    qed
  qed
qed

lemma with_book_store:
  "fst (snd (with_book e qs req b bookId n d))
     = snd (findCachedQuiz e qs bookId (Some (actualPageRange req b)) n d)
   \<or> (\<exists>q w. fst (with_book e qs req b bookId n d) = Generated q w
          \<and> fst (snd (with_book e qs req b bookId n d)) = qs @ [q]
          \<and> quiz_pageRange q = actualPageRange req b
          \<and> cacheKey q = generateCacheKey (book_id b) (Some (actualPageRange req b))
                            (quiz_numberOfQuestions q) d
          \<and> quiz_bookId q = book_id b \<and> quiz_difficulty q = d
          \<and> 1 \<le> range_start (actualPageRange req b) \<and> 1 \<le> range_end (actualPageRange req b)
          \<and> range_end (actualPageRange req b) \<le> totalPages b
          \<and> cacheKey q \<notin> set (map cacheKey qs) \<and> usageCount q = 1)"
proof -
  let ?a = "actualPageRange req b"
  let ?f = "findCachedQuiz e qs bookId (Some ?a) n d"
  let ?tr = "[ConnectDB, FindBook bookId, CacheLookup (generateCacheKey bookId (Some ?a) n d)]"
  show ?thesis
  proof (cases "fst ?f")
    case (Some hit)
    then show ?thesis by (cases ?f) (simp add: with_book_def Let_def)
  next
    case None
    then have f: "?f = (None, qs)" by (rule findCachedQuiz_miss_keeps)
    then have w: "with_book e qs req b bookId n d = cache_miss e qs req b ?a n d ?tr"
      by (simp add: with_book_def Let_def)
    from cache_miss_store [of e qs req b ?a n d ?tr]
    show ?thesis
    proof
      assume "fst (snd (cache_miss e qs req b ?a n d ?tr)) = qs"
      with w f show ?thesis by simp
    next
      assume "\<exists>q w. fst (cache_miss e qs req b ?a n d ?tr) = Generated q w"
      then obtain q wt where g: "fst (cache_miss e qs req b ?a n d ?tr) = Generated q wt" by blast
      note G = cache_miss_Generated [OF g]
      note F = cache_miss_fresh [OF g]
      have "range_end ?a \<le> totalPages b"
      proof (cases "req_pageRange req")
        case None
        then show ?thesis by (simp add: actualPageRange_def)
      next
        case (Some r)
        with G show ?thesis by (simp add: actualPageRange_def)
      qed
      with G F g w show ?thesis by (intro disjI2 exI [of _ q] exI [of _ wt]) simp
    qed
  qed
qed

lemma handler_store:
  "fst (snd (handler e store req)) = quizzes store
   \<or> (\<exists>bookId n d b. validate_request req = Inr (bookId, n, d)
         \<and> Book_findById store bookId = Some b
         \<and> handler e store req = with_book e (quizzes store) req b bookId n d)"
  by (auto simp: handler_def split: sum.splits option.splits)

text \<open>
  Over a catalogue of uploaded books, every request leaves a consistent store consistent;
  so every store the code reaches is consistent.
\<close>

lemma handler_keeps_store_consistent:
  assumes c: "catalogue_ok (Book_findById store)" and s: "store_consistent store"
  shows "store_consistent (store\<lparr>quizzes := fst (snd (handler e store req))\<rparr>)"
proof -
  let ?books = "Book_findById store"
  from handler_store [of e store req]
  show ?thesis
  proof
    assume "fst (snd (handler e store req)) = quizzes store"
    with s show ?thesis by (simp add: store_consistent_def)
  next
    assume "\<exists>bookId n d b. validate_request req = Inr (bookId, n, d)
         \<and> Book_findById store bookId = Some b
         \<and> handler e store req = with_book e (quizzes store) req b bookId n d"
    then obtain bookId n d b where v: "validate_request req = Inr (bookId, n, d)"
      and b: "?books bookId = Some b"
      and h: "handler e store req = with_book e (quizzes store) req b bookId n d" by blast
    from c b have cb: "hex_id (book_id b)" "?books (book_id b) = Some b"
      by (auto simp: catalogue_ok_def)
    from with_book_store [of e "quizzes store" req b bookId n d]
    show ?thesis
    proof
      assume "fst (snd (with_book e (quizzes store) req b bookId n d))
                = snd (findCachedQuiz e (quizzes store) bookId (Some (actualPageRange req b)) n d)"
      with h s findCachedQuiz_keeps_stored_ok [of ?books "quizzes store"]
      show ?thesis by (simp add: store_consistent_def)
    next
      assume "\<exists>q w. fst (with_book e (quizzes store) req b bookId n d) = Generated q w
          \<and> fst (snd (with_book e (quizzes store) req b bookId n d)) = quizzes store @ [q]
          \<and> quiz_pageRange q = actualPageRange req b
          \<and> cacheKey q = generateCacheKey (book_id b) (Some (actualPageRange req b))
                            (quiz_numberOfQuestions q) d
          \<and> quiz_bookId q = book_id b \<and> quiz_difficulty q = d
          \<and> 1 \<le> range_start (actualPageRange req b) \<and> 1 \<le> range_end (actualPageRange req b)
          \<and> range_end (actualPageRange req b) \<le> totalPages b
          \<and> cacheKey q \<notin> set (map cacheKey (quizzes store)) \<and> usageCount q = 1"
      then obtain q where q: "fst (snd (with_book e (quizzes store) req b bookId n d)) = quizzes store @ [q]"
          "quiz_pageRange q = actualPageRange req b"
          "cacheKey q = generateCacheKey (book_id b) (Some (actualPageRange req b))
                            (quiz_numberOfQuestions q) d"
          "quiz_bookId q = book_id b" "quiz_difficulty q = d"
          "1 \<le> range_start (actualPageRange req b)" "1 \<le> range_end (actualPageRange req b)"
          "range_end (actualPageRange req b) \<le> totalPages b" by blast
      have "stored_ok ?books q"
        using q(2-8) cb by (simp add: stored_ok_def)
      with q(1) h s show ?thesis by (simp add: store_consistent_def)
    qed
  qed
qed

lemma catalogue_keeps_store_consistent:
  assumes "store_consistent d"
      and "list_all (\<lambda>q. books (quiz_bookId q) = Book_findById d (quiz_bookId q)
                         \<or> books (quiz_bookId q) = None) (quizzes d)"
  shows "store_consistent (d\<lparr>Book_findById := books\<rparr>)"
  using assms
  by (auto simp: store_consistent_def stored_ok_def list_all_iff split: option.splits)

lemma reachable_store_consistent:
  assumes "reachable d"
  shows "catalogue_ok (Book_findById d) \<and> store_consistent d"
  using assms
proof (induction rule: reachable.induct)
  case (reachable_start books)
  then show ?case by (simp add: store_consistent_def)
next
  case (reachable_request d e req)
  with handler_keeps_store_consistent [of d e req] show ?case by simp
next
  case (reachable_catalogue d books)
  with catalogue_keeps_store_consistent [of d books] show ?case by simp
qed

text \<open>The unique index on \<open>cacheKey\<close> holds in every store the code reaches.\<close>

lemma handler_keeps_keys_unique:
  assumes "distinct (map cacheKey (quizzes store))"
  shows "distinct (map cacheKey (fst (snd (handler e store req))))"
proof -
  from handler_store [of e store req]
  show ?thesis
  proof
    assume "fst (snd (handler e store req)) = quizzes store"
    with assms show ?thesis by simp
  next
    assume "\<exists>bookId n d b. validate_request req = Inr (bookId, n, d)
         \<and> Book_findById store bookId = Some b
         \<and> handler e store req = with_book e (quizzes store) req b bookId n d"
    then obtain bookId n d b where
      h: "handler e store req = with_book e (quizzes store) req b bookId n d" by blast
    from with_book_store [of e "quizzes store" req b bookId n d]
    show ?thesis
    proof
      assume "fst (snd (with_book e (quizzes store) req b bookId n d))
                = snd (findCachedQuiz e (quizzes store) bookId (Some (actualPageRange req b)) n d)"
      with h assms show ?thesis by (simp add: findCachedQuiz_keeps_keys)
    next
      assume "\<exists>q w. fst (with_book e (quizzes store) req b bookId n d) = Generated q w
          \<and> fst (snd (with_book e (quizzes store) req b bookId n d)) = quizzes store @ [q]
          \<and> quiz_pageRange q = actualPageRange req b
          \<and> cacheKey q = generateCacheKey (book_id b) (Some (actualPageRange req b))
                            (quiz_numberOfQuestions q) d
          \<and> quiz_bookId q = book_id b \<and> quiz_difficulty q = d
          \<and> 1 \<le> range_start (actualPageRange req b) \<and> 1 \<le> range_end (actualPageRange req b)
          \<and> range_end (actualPageRange req b) \<le> totalPages b
          \<and> cacheKey q \<notin> set (map cacheKey (quizzes store)) \<and> usageCount q = 1"
      then obtain q where "fst (snd (with_book e (quizzes store) req b bookId n d)) = quizzes store @ [q]"
        and "cacheKey q \<notin> set (map cacheKey (quizzes store))" by blast
      with h assms show ?thesis by simp
    qed
  qed
qed

lemma reachable_keys_distinct:
  assumes "reachable d"
  shows "distinct (map cacheKey (quizzes d))"
  using assms
proof (induction rule: reachable.induct)
  case (reachable_start books)
  show ?case by simp
next
  case (reachable_request d e req)
  with handler_keeps_keys_unique [of d e req] show ?case by simp
next
  case (reachable_catalogue d books)
  then show ?case by simp
qed

text \<open>A quiz is stored as used once, and a cache hit counts one more use.\<close>

lemma findCachedQuiz_keeps_used:
  assumes "list_all (\<lambda>q. 1 \<le> usageCount q) qs"
  shows "list_all (\<lambda>q. 1 \<le> usageCount q) (snd (findCachedQuiz e qs bookId pr n d))"
proof (cases "fst (findCachedQuiz e qs bookId pr n d)")
  case None
  then show ?thesis using assms by (simp add: findCachedQuiz_miss_keeps)
next
  case (Some hit)
  then obtain j q where f: "findOne qs (generateCacheKey bookId pr n d) = Some (j, q)"
    and r: "snd (findCachedQuiz e qs bookId pr n d)
              = qs[j := q\<lparr>usageCount := usageCount q + 1, lastUsedAt := now_lookup e\<rparr>]"
    by (auto simp: findCachedQuiz_def incrementUsage_def Let_def split: option.splits)
  from findOne_Some [OF f] have j: "j < length qs" "qs ! j = q" by simp_all
  then have "1 \<le> usageCount q" using assms by (auto simp: list_all_length)
  then show ?thesis
    unfolding r using assms j(1)
    by (auto simp: list_all_length nth_list_update)
qed

lemma handler_keeps_used:
  assumes "list_all (\<lambda>q. 1 \<le> usageCount q) (quizzes store)"
  shows "list_all (\<lambda>q. 1 \<le> usageCount q) (fst (snd (handler e store req)))"
proof -
  from handler_store [of e store req]
  show ?thesis
  proof
    assume "fst (snd (handler e store req)) = quizzes store"
    with assms show ?thesis by simp
  next
    assume "\<exists>bookId n d b. validate_request req = Inr (bookId, n, d)
         \<and> Book_findById store bookId = Some b
         \<and> handler e store req = with_book e (quizzes store) req b bookId n d"
    then obtain bookId n d b where
      h: "handler e store req = with_book e (quizzes store) req b bookId n d" by blast
    from with_book_store [of e "quizzes store" req b bookId n d]
    show ?thesis
    proof
      assume "fst (snd (with_book e (quizzes store) req b bookId n d))
                = snd (findCachedQuiz e (quizzes store) bookId (Some (actualPageRange req b)) n d)"
      with h assms show ?thesis by (simp add: findCachedQuiz_keeps_used)
    next
      assume "\<exists>q w. fst (with_book e (quizzes store) req b bookId n d) = Generated q w
          \<and> fst (snd (with_book e (quizzes store) req b bookId n d)) = quizzes store @ [q]
          \<and> quiz_pageRange q = actualPageRange req b
          \<and> cacheKey q = generateCacheKey (book_id b) (Some (actualPageRange req b))
                            (quiz_numberOfQuestions q) d
          \<and> quiz_bookId q = book_id b \<and> quiz_difficulty q = d
          \<and> 1 \<le> range_start (actualPageRange req b) \<and> 1 \<le> range_end (actualPageRange req b)
          \<and> range_end (actualPageRange req b) \<le> totalPages b
          \<and> cacheKey q \<notin> set (map cacheKey (quizzes store)) \<and> usageCount q = 1"
      then obtain q where "fst (snd (with_book e (quizzes store) req b bookId n d)) = quizzes store @ [q]"
        and "usageCount q = 1" by blast
      with h assms show ?thesis by simp
    qed
  qed
qed

lemma reachable_used:
  assumes "reachable d"
  shows "list_all (\<lambda>q. 1 \<le> usageCount q) (quizzes d)"
  using assms
proof (induction rule: reachable.induct)
  case (reachable_start books)
  show ?case by simp
next
  case (reachable_request d e req)
  with handler_keeps_used [of d e req] show ?case by simp
next
  case (reachable_catalogue d books)
  then show ?case by simp
qed


section \<open>A whole-book request, run on the sample data\<close>

lemma generateWithRetry_first_success:
  assumes "getGenerativeModel_error client (hd MODEL_FALLBACK_CHAIN) = None"
      and "attempt_once client 0 (hd MODEL_FALLBACK_CHAIN) prompt = Inr qs"
      and "0 < maxRetries"
  shows "generateWithRetry client prompt maxRetries
           = (Inr qs, \<lparr>calls = 1, lastError = None, waits = []\<rparr>)"
proof -
  have "attempt_loop client (hd MODEL_FALLBACK_CHAIN) prompt maxRetries 1
          \<lparr>calls = 0, lastError = None, waits = []\<rparr>
        = (Some qs, \<lparr>calls = 1, lastError = None, waits = []\<rparr>)"
    using assms(2,3) by (subst attempt_loop.simps) simp
  then show ?thesis
    using assms(1) by (simp add: generateWithRetry_def MODEL_FALLBACK_CHAIN_def)
qed

lemma sample_parsed: "parseQuizResponse sample_parse sample_response = Inr [sample_question]"
  by code_simp

lemma sample_generation:
  assumes "trim content \<noteq> []"
  shows "generateQuiz working_client content 5 ''medium''
           = (Inr [sample_question], \<lparr>calls = 1, lastError = None, waits = []\<rparr>)"
proof -
  have a: "getGenerativeModel_error working_client (hd MODEL_FALLBACK_CHAIN) = None"
    by (simp add: working_client_def)
  have b: "attempt_once working_client 0 (hd MODEL_FALLBACK_CHAIN) p = Inr [sample_question]" for p
    by (simp add: attempt_once_def working_client_def sample_parsed)
  from generateWithRetry_first_success [OF a b, of 3] assms
  show ?thesis by (simp add: generateQuiz_def)
qed

lemma whole_book_content:
  "join page_separator (map page_text (pages sample_book)) = whole_book_text"
  by (simp add: sample_book_def whole_book_text_def)

lemma whole_book_trim: "trim whole_book_text \<noteq> []"
  by code_simp

lemma whole_book_budget: "truncateText whole_book_text MAX_CHARS = (whole_book_text, False)"
  by (simp add: truncateText_def MAX_CHARS_def MAX_TOKENS_def CHARS_PER_TOKEN_def
        whole_book_text_def page_separator_def)

lemma whole_book_lookup_key:
  "generateCacheKey sample_id (Some \<lparr>range_start = 1, range_end = 3\<rparr>) 5 ''medium''
     = ''64b7f0c2a1d3e4f5a6b7c8d9-1-3-5-medium''"
  by code_simp

lemma whole_book_saved_key:
  "generateCacheKey sample_id (Some \<lparr>range_start = 1, range_end = 3\<rparr>) 1 ''medium''
     = ''64b7f0c2a1d3e4f5a6b7c8d9-1-3-1-medium''"
  by code_simp

lemma whole_book_request_valid:
  "validate_request (post None None None) = Inr (sample_id, 5, ''medium'')"
  by code_simp

lemma whole_book_title: "trim ''Algebra - Full Book Quiz'' = ''Algebra - Full Book Quiz''"
  by code_simp

lemma sample_question_valid: "question_errors 0 sample_question = []"
  by code_simp

lemma whole_book_quiz_valid:
  "quiz_validation_errors
     \<lparr>qd_bookId = i, qd_title = ''Algebra - Full Book Quiz'', qd_generatedDate = g,
      qd_pageRange = \<lparr>range_start = 1, range_end = 3\<rparr>, qd_questions = [sample_question],
      qd_difficulty = ''medium'', qd_numberOfQuestions = 1\<rparr> = []"
  by (simp add: quiz_validation_errors_def whole_book_title min_error_def sample_question_valid)

lemma sample_cache_miss_run:
  assumes "ai e = working_client" and "insert_save_error e = None"
      and "new_id e = ''75c8a1d3b2e4f5a6b7c8d9e0''"
      and "now_generated e = 1700000400" and "now_saved e = 1700000500"
      and "''64b7f0c2a1d3e4f5a6b7c8d9-1-3-1-medium'' \<notin> set (map cacheKey qs)"
  shows "cache_miss e qs (post None None None) sample_book \<lparr>range_start = 1, range_end = 3\<rparr>
           5 ''medium'' tr
         = (Generated generated_quiz False, qs @ [generated_quiz],
            tr @ [SelectContent, Generate 1, Persist ''64b7f0c2a1d3e4f5a6b7c8d9-1-3-1-medium''])"
proof -
  let ?req = "post None None None"
  have c: "cache_miss e qs ?req sample_book \<lparr>range_start = 1, range_end = 3\<rparr> 5 ''medium'' tr
         = generate_and_save e qs ?req sample_book \<lparr>range_start = 1, range_end = 3\<rparr> 5
             ''medium'' whole_book_text (tr @ [SelectContent])"
    using whole_book_content by (simp add: cache_miss_def Let_def post_def sample_book_def)
  have g: "generateQuiz (ai e) whole_book_text 5 ''medium''
            = (Inr [sample_question], \<lparr>calls = 1, lastError = None, waits = []\<rparr>)"
    using sample_generation [OF whole_book_trim] assms(1) by simp
  have t: "req_pageRange ?req = None" by (simp add: post_def)
  have b: "book_id sample_book = sample_id" "book_title sample_book = ''Algebra''"
    by (simp_all add: sample_book_def)
  show ?thesis
    unfolding c using assms(6)
    by (simp add: generate_and_save_def whole_book_trim whole_book_budget g t b assms(2-5) Let_def
          saveQuizToCache_def whole_book_saved_key generated_quiz_def whole_book_title
          whole_book_quiz_valid)
qed

lemma sample_whole_book_run:
  "handler sample_env empty_db (post None None None) =
     (Generated generated_quiz False, [generated_quiz],
      [ConnectDB, FindBook sample_id, CacheLookup ''64b7f0c2a1d3e4f5a6b7c8d9-1-3-5-medium'',
       SelectContent, Generate 1, Persist ''64b7f0c2a1d3e4f5a6b7c8d9-1-3-1-medium''])"
proof -
  let ?req = "post None None None"
  let ?tr = "[ConnectDB, FindBook sample_id, CacheLookup ''64b7f0c2a1d3e4f5a6b7c8d9-1-3-5-medium'']"
  have h: "handler sample_env empty_db ?req
             = with_book sample_env (quizzes empty_db) ?req sample_book sample_id 5 ''medium''"
  proof (rule handler_with_book [OF _ whole_book_request_valid])
    show "req_method ?req = ''POST''" by (simp add: post_def)
    show "connect_error sample_env = None" by (simp add: sample_env_def)
    show "findBook_error sample_env = None" by (simp add: sample_env_def)
    show "Book_findById empty_db sample_id = Some sample_book"
      by (simp add: empty_db_def books_of_def sample_book_def)
  qed
  have a: "actualPageRange ?req sample_book = \<lparr>range_start = 1, range_end = 3\<rparr>"
    by (simp add: actualPageRange_def post_def sample_book_def)
  have f: "findCachedQuiz sample_env [] sample_id (Some \<lparr>range_start = 1, range_end = 3\<rparr>) 5 ''medium''
             = (None, [])"
    by (simp add: findCachedQuiz_def findOne_def sample_env_def Let_def)
  have w: "with_book sample_env (quizzes empty_db) ?req sample_book sample_id 5 ''medium''
         = cache_miss sample_env [] ?req sample_book \<lparr>range_start = 1, range_end = 3\<rparr> 5 ''medium'' ?tr"
    by (simp add: with_book_def Let_def a f whole_book_lookup_key empty_db_def)
  have m: "cache_miss sample_env [] ?req sample_book \<lparr>range_start = 1, range_end = 3\<rparr> 5 ''medium'' ?tr
         = (Generated generated_quiz False, [] @ [generated_quiz],
            ?tr @ [SelectContent, Generate 1, Persist ''64b7f0c2a1d3e4f5a6b7c8d9-1-3-1-medium''])"
    by (rule sample_cache_miss_run) (simp_all add: sample_env_def)
  show ?thesis unfolding h w m by simp
qed

lemma sample_id_hex: "hex_id sample_id"
  by code_simp

lemma sample_catalogue: "catalogue_ok (books_of sample_book)"
  using sample_id_hex
  by (auto simp: catalogue_ok_def books_of_def uploaded_book_def sample_book_def)

lemma sample_store_reachable: "reachable generated_db"
proof -
  have "reachable empty_db"
    unfolding empty_db_def using sample_catalogue by (rule reachable_start)
  then have "reachable (empty_db\<lparr>quizzes := fst (snd (handler sample_env empty_db (post None None None)))\<rparr>)"
    by (rule reachable_request)
  then have "reachable (empty_db\<lparr>quizzes := [generated_quiz]\<rparr>)"
    by (simp only: sample_whole_book_run fst_conv snd_conv)
  then show ?thesis by (simp add: empty_db_def generated_db_def)
qed


text \<open>
  A store holding a quiz for pages 1 to 9 of the sample book, which has three pages, is
  not one the code reaches.
\<close>

lemma out_of_range_quiz_unreachable:
  "\<not> reachable \<lparr>Book_findById = books_of sample_book, quizzes = [sample_quiz]\<rparr>"
proof
  assume "reachable \<lparr>Book_findById = books_of sample_book, quizzes = [sample_quiz]\<rparr>"
  from reachable_store_consistent [OF this]
  show False
    by (simp add: store_consistent_def stored_ok_def sample_quiz_def books_of_def sample_book_def)
qed

section \<open>Cache hit: properties\<close>

text \<open>
  C1, as the code has it. With the store answering, and the cache key unique among the stored
  quizzes, a lookup whose parameters give the key of a stored quiz returns that quiz with
  \<open>usageCount\<close> one higher and \<open>lastUsedAt\<close> set to the current time, every other field
  (the question set among them) unchanged; the store holds the updated quiz in its place and
  nothing else changes. A second lookup after the first returns the same quiz again, with
  \<open>usageCount\<close> two higher. The increment is a read, a change in memory and a save, and is
  not atomic: when two lookups both read before either saves, both return the quiz with
  \<open>usageCount\<close> one higher, and the store counts one use for the two.
\<close>

theorem findCachedQuiz_hit_increments:
  assumes "findOne_error e = None" and "increment_save_error e = None"
      and "findOne_error e' = None" and "increment_save_error e' = None"
      and "distinct (map cacheKey qs)" and "q \<in> set qs"
      and "cacheKey q = generateCacheKey bookId pr n d"
  shows "findCachedQuiz e qs bookId pr n d =
           (Some (q\<lparr>usageCount := usageCount q + 1, lastUsedAt := now_lookup e\<rparr>),
            map (\<lambda>x. if cacheKey x = cacheKey q
                      then q\<lparr>usageCount := usageCount q + 1, lastUsedAt := now_lookup e\<rparr>
                      else x) qs)
       \<and> fst (findCachedQuiz e' (snd (findCachedQuiz e qs bookId pr n d)) bookId pr n d) =
           Some (q\<lparr>usageCount := usageCount q + 2, lastUsedAt := now_lookup e'\<rparr>)
       \<and> interleaved_lookups e e' qs bookId pr n d =
           (Some (q\<lparr>usageCount := usageCount q + 1, lastUsedAt := now_lookup e\<rparr>),
            Some (q\<lparr>usageCount := usageCount q + 1, lastUsedAt := now_lookup e'\<rparr>),
            map (\<lambda>x. if cacheKey x = cacheKey q
                      then q\<lparr>usageCount := usageCount q + 1, lastUsedAt := now_lookup e'\<rparr>
                      else x) qs)"
proof -
  let ?q = "q\<lparr>usageCount := usageCount q + 1, lastUsedAt := now_lookup e\<rparr>"
  let ?q' = "q\<lparr>usageCount := usageCount q + 1, lastUsedAt := now_lookup e'\<rparr>"
  let ?qs = "map (\<lambda>x. if cacheKey x = cacheKey q then ?q else x) qs"
  have first: "findCachedQuiz e qs bookId pr n d = (Some ?q, ?qs)"
    using assms(1,2,5,6,7) by (rule findCachedQuiz_stored)
  have keys: "map cacheKey ?qs = map cacheKey qs" by (induction qs) auto
  have d: "distinct (map cacheKey ?qs)" using assms(5) by (simp only: keys)
  have m: "?q \<in> set ?qs" using assms(6) by force
  have k: "cacheKey ?q = generateCacheKey bookId pr n d" using assms(7) by simp
  have "findCachedQuiz e' ?qs bookId pr n d =
          (Some (?q\<lparr>usageCount := usageCount ?q + 1, lastUsedAt := now_lookup e'\<rparr>),
           map (\<lambda>x. if cacheKey x = cacheKey ?q
                     then ?q\<lparr>usageCount := usageCount ?q + 1, lastUsedAt := now_lookup e'\<rparr>
                     else x) ?qs)"
    using assms(3,4) d m k by (rule findCachedQuiz_stored)
  then have second: "fst (findCachedQuiz e' ?qs bookId pr n d) =
          Some (q\<lparr>usageCount := usageCount q + 2, lastUsedAt := now_lookup e'\<rparr>)"
    by simp
  from findOne_stored [OF assms(5,6)] obtain j where
    j: "j < length qs" "qs ! j = q" "findOne qs (cacheKey q) = Some (j, q)" by blast
  have r1: "lookup_read e qs (generateCacheKey bookId pr n d) = Some (j, q)"
    using assms(1,7) j(3) by (simp add: lookup_read_def)
  have r2: "lookup_read e' qs (generateCacheKey bookId pr n d) = Some (j, q)"
    using assms(3,7) j(3) by (simp add: lookup_read_def)
  have s1: "lookup_save e qs (Some (j, q)) = (Some ?q, qs[j := ?q])"
    using assms(2) by (simp add: lookup_save_def incrementUsage_def Let_def)
  have s2: "lookup_save e' (qs[j := ?q]) (Some (j, q)) = (Some ?q', qs[j := ?q'])"
    using assms(4) by (simp add: lookup_save_def incrementUsage_def Let_def)
  have "qs[j := ?q'] = map (\<lambda>x. if cacheKey x = cacheKey (qs ! j) then ?q' else x) qs"
    using assms(5) j(1,2) by (intro update_by_key) simp_all
  then have u: "qs[j := ?q'] = map (\<lambda>x. if cacheKey x = cacheKey q then ?q' else x) qs"
    using j(2) by simp
  have third: "interleaved_lookups e e' qs bookId pr n d
                 = (Some ?q, Some ?q', map (\<lambda>x. if cacheKey x = cacheKey q then ?q' else x) qs)"
    by (simp add: interleaved_lookups_def Let_def r1 r2 s1 s2 u)
  from first second third show ?thesis by simp
qed

theorem findCachedQuiz_hit_increments_witness:
  "findOne_error sample_env = None \<and> increment_save_error sample_env = None
   \<and> distinct (map cacheKey [generated_quiz]) \<and> generated_quiz \<in> set [generated_quiz]
   \<and> cacheKey generated_quiz
       = generateCacheKey sample_id (Some \<lparr>range_start = 1, range_end = 3\<rparr>) 1 ''medium''
   \<and> findCachedQuiz sample_env [generated_quiz] sample_id
         (Some \<lparr>range_start = 1, range_end = 3\<rparr>) 1 ''medium''
       = (Some (generated_quiz\<lparr>usageCount := 2, lastUsedAt := 1700000300\<rparr>),
          [generated_quiz\<lparr>usageCount := 2, lastUsedAt := 1700000300\<rparr>])
   \<and> fst (findCachedQuiz sample_env
             (snd (findCachedQuiz sample_env [generated_quiz] sample_id
                     (Some \<lparr>range_start = 1, range_end = 3\<rparr>) 1 ''medium''))
             sample_id (Some \<lparr>range_start = 1, range_end = 3\<rparr>) 1 ''medium'')
       = Some (generated_quiz\<lparr>usageCount := 3, lastUsedAt := 1700000300\<rparr>)
   \<and> interleaved_lookups sample_env sample_env [generated_quiz] sample_id
         (Some \<lparr>range_start = 1, range_end = 3\<rparr>) 1 ''medium''
       = (Some (generated_quiz\<lparr>usageCount := 2, lastUsedAt := 1700000300\<rparr>),
          Some (generated_quiz\<lparr>usageCount := 2, lastUsedAt := 1700000300\<rparr>),
          [generated_quiz\<lparr>usageCount := 2, lastUsedAt := 1700000300\<rparr>])"
proof -
  have h1: "findOne_error sample_env = None" and h2: "increment_save_error sample_env = None"
    by (simp_all add: sample_env_def)
  have h3: "distinct (map cacheKey [generated_quiz])" and h4: "generated_quiz \<in> set [generated_quiz]"
    by simp_all
  have h5: "cacheKey generated_quiz
       = generateCacheKey sample_id (Some \<lparr>range_start = 1, range_end = 3\<rparr>) 1 ''medium''"
    unfolding whole_book_saved_key by (simp add: generated_quiz_def)
  have u: "usageCount generated_quiz = 1" by (simp add: generated_quiz_def)
  have t: "now_lookup sample_env = 1700000300" by (simp add: sample_env_def)
  note hit = findCachedQuiz_hit_increments [OF h1 h2 h1 h2 h3 h4 h5]
  have a: "findCachedQuiz sample_env [generated_quiz] sample_id
         (Some \<lparr>range_start = 1, range_end = 3\<rparr>) 1 ''medium''
       = (Some (generated_quiz\<lparr>usageCount := 2, lastUsedAt := 1700000300\<rparr>),
          [generated_quiz\<lparr>usageCount := 2, lastUsedAt := 1700000300\<rparr>])"
    using hit [THEN conjunct1] u t by simp
  have b: "fst (findCachedQuiz sample_env
             (snd (findCachedQuiz sample_env [generated_quiz] sample_id
                     (Some \<lparr>range_start = 1, range_end = 3\<rparr>) 1 ''medium''))
             sample_id (Some \<lparr>range_start = 1, range_end = 3\<rparr>) 1 ''medium'')
       = Some (generated_quiz\<lparr>usageCount := 3, lastUsedAt := 1700000300\<rparr>)"
    using hit [THEN conjunct2, THEN conjunct1] u t by simp
  have c: "interleaved_lookups sample_env sample_env [generated_quiz] sample_id
         (Some \<lparr>range_start = 1, range_end = 3\<rparr>) 1 ''medium''
       = (Some (generated_quiz\<lparr>usageCount := 2, lastUsedAt := 1700000300\<rparr>),
          Some (generated_quiz\<lparr>usageCount := 2, lastUsedAt := 1700000300\<rparr>),
          [generated_quiz\<lparr>usageCount := 2, lastUsedAt := 1700000300\<rparr>])"
    using hit [THEN conjunct2, THEN conjunct2] u t by simp
  from h1 h2 h3 h4 h5 a b c show ?thesis by (intro conjI)
qed

text \<open>
  The quiz the whole-book request has stored, used once, and two requests for it whose
  lookups interleave: both are answered from the cache, and the store counts two uses, not
  three.
\<close>

theorem findCachedQuiz_atomicity_counterexample:
  "reachable generated_db \<and> quizzes generated_db = [generated_quiz]
   \<and> usageCount generated_quiz = 1
   \<and> cacheKey generated_quiz
       = generateCacheKey sample_id (Some \<lparr>range_start = 1, range_end = 3\<rparr>) 1 ''medium''
   \<and> interleaved_lookups sample_env sample_env [generated_quiz] sample_id
         (Some \<lparr>range_start = 1, range_end = 3\<rparr>) 1 ''medium''
       = (Some (generated_quiz\<lparr>usageCount := 2, lastUsedAt := 1700000300\<rparr>),
          Some (generated_quiz\<lparr>usageCount := 2, lastUsedAt := 1700000300\<rparr>),
          [generated_quiz\<lparr>usageCount := 2, lastUsedAt := 1700000300\<rparr>])
   \<and> map usageCount (snd (snd (interleaved_lookups sample_env sample_env [generated_quiz] sample_id
         (Some \<lparr>range_start = 1, range_end = 3\<rparr>) 1 ''medium''))) = [2]"
proof -
  have "usageCount generated_quiz = 1
   \<and> cacheKey generated_quiz
       = generateCacheKey sample_id (Some \<lparr>range_start = 1, range_end = 3\<rparr>) 1 ''medium''
   \<and> interleaved_lookups sample_env sample_env [generated_quiz] sample_id
         (Some \<lparr>range_start = 1, range_end = 3\<rparr>) 1 ''medium''
       = (Some (generated_quiz\<lparr>usageCount := 2, lastUsedAt := 1700000300\<rparr>),
          Some (generated_quiz\<lparr>usageCount := 2, lastUsedAt := 1700000300\<rparr>),
          [generated_quiz\<lparr>usageCount := 2, lastUsedAt := 1700000300\<rparr>])
   \<and> map usageCount (snd (snd (interleaved_lookups sample_env sample_env [generated_quiz] sample_id
         (Some \<lparr>range_start = 1, range_end = 3\<rparr>) 1 ''medium''))) = [2]"
    by code_simp
  with sample_store_reachable show ?thesis by (simp add: generated_db_def)
qed

section \<open>Content selection: properties\<close>

text \<open>
  A book with only the legacy full text is not one the upload stores; for it the selection
  is a slice of that text.
\<close>

lemma legacy_book_selection:
  "\<not> uploaded_book legacy_book \<and> extractTextFromPages legacy_book 1 1 = Inr ''hello world''"
proof -
  have "extractTextFromPages legacy_book 1 1 = Inr ''hello world''" by code_simp
  then show ?thesis by (simp add: uploaded_book_def legacy_book_def)
qed



section \<open>Cache lookup and whole-book requests: properties\<close>

text \<open>
  C8. When the store throws during the cache lookup, in the query for the key or in the save
  of the usage increment of a quiz found, \<open>findCachedQuiz\<close> returns \<open>null\<close> and leaves
  the store as it was, and the handler goes on with the cache-miss path (range check, content
  selection, generation) instead of failing.
\<close>

theorem lookup_error_is_miss:
  assumes "req_method req = ''POST''" and "validate_request req = Inr (bookId, n, d)"
      and "connect_error e = None" and "findBook_error e = None"
      and "Book_findById store bookId = Some b"
      and "findOne_error e \<noteq> None
           \<or> (findOne (quizzes store) (generateCacheKey bookId (Some (actualPageRange req b)) n d) \<noteq> None
              \<and> increment_save_error e \<noteq> None)"
  shows "findCachedQuiz e (quizzes store) bookId (Some (actualPageRange req b)) n d
           = (None, quizzes store)
       \<and> handler e store req =
           cache_miss e (quizzes store) req b (actualPageRange req b) n d
             [ConnectDB, FindBook bookId,
              CacheLookup (generateCacheKey bookId (Some (actualPageRange req b)) n d)]"
proof -
  have miss: "findCachedQuiz e (quizzes store) bookId (Some (actualPageRange req b)) n d
           = (None, quizzes store)"
    using assms(6)
    by (auto simp: findCachedQuiz_def incrementUsage_def Let_def split: option.splits)
  have "handler e store req = with_book e (quizzes store) req b bookId n d"
    using assms(1-5) by (rule handler_with_book)
  with miss show ?thesis by (simp add: with_book_def Let_def)
qed

theorem lookup_error_is_miss_witness:
  "req_method (post None None None) = ''POST''
   \<and> validate_request (post None None None) = Inr (sample_id, 5, ''medium'')
   \<and> Book_findById cached_db sample_id = Some sample_book
   \<and> findOne_error (sample_env\<lparr>findOne_error := Some ''connection lost''\<rparr>) \<noteq> None
   \<and> cacheKey whole_book_quiz
       = generateCacheKey sample_id (Some (actualPageRange (post None None None) sample_book)) 5 ''medium''
   \<and> quizzes cached_db = [whole_book_quiz]
   \<and> findCachedQuiz (sample_env\<lparr>findOne_error := Some ''connection lost''\<rparr>) [whole_book_quiz]
        sample_id (Some (actualPageRange (post None None None) sample_book)) 5 ''medium''
       = (None, [whole_book_quiz])
   \<and> handler (sample_env\<lparr>findOne_error := Some ''connection lost''\<rparr>) cached_db (post None None None)
       = (Generated generated_quiz False, [whole_book_quiz, generated_quiz],
          [ConnectDB, FindBook sample_id, CacheLookup ''64b7f0c2a1d3e4f5a6b7c8d9-1-3-5-medium'',
           SelectContent, Generate 1, Persist ''64b7f0c2a1d3e4f5a6b7c8d9-1-3-1-medium''])"
proof -
  let ?e = "sample_env\<lparr>findOne_error := Some ''connection lost''\<rparr>"
  let ?req = "post None None None"
  have h1: "req_method ?req = ''POST''" by (simp add: post_def)
  have h3: "connect_error ?e = None" and h4: "findBook_error ?e = None"
    by (simp_all add: sample_env_def)
  have h5: "Book_findById cached_db sample_id = Some sample_book"
    by (simp add: cached_db_def books_of_def sample_book_def)
  have h6: "findOne_error ?e \<noteq> None" by simp
  have a: "actualPageRange ?req sample_book = \<lparr>range_start = 1, range_end = 3\<rparr>"
    by (simp add: actualPageRange_def post_def sample_book_def)
  have q: "quizzes cached_db = [whole_book_quiz]" by (simp add: cached_db_def)
  have k: "cacheKey whole_book_quiz
       = generateCacheKey sample_id (Some (actualPageRange ?req sample_book)) 5 ''medium''"
    unfolding a whole_book_lookup_key by (simp add: whole_book_quiz_def)
  note T = lookup_error_is_miss [OF h1 whole_book_request_valid h3 h4 h5 disjI1 [OF h6],
                                 unfolded q]
  have m: "cache_miss ?e [whole_book_quiz] ?req sample_book \<lparr>range_start = 1, range_end = 3\<rparr>
             5 ''medium''
             [ConnectDB, FindBook sample_id, CacheLookup ''64b7f0c2a1d3e4f5a6b7c8d9-1-3-5-medium'']
         = (Generated generated_quiz False, [whole_book_quiz] @ [generated_quiz],
            [ConnectDB, FindBook sample_id, CacheLookup ''64b7f0c2a1d3e4f5a6b7c8d9-1-3-5-medium'']
              @ [SelectContent, Generate 1, Persist ''64b7f0c2a1d3e4f5a6b7c8d9-1-3-1-medium''])"
    by (rule sample_cache_miss_run) (simp_all add: sample_env_def whole_book_quiz_def)
  have r: "handler ?e cached_db ?req
       = (Generated generated_quiz False, [whole_book_quiz, generated_quiz],
          [ConnectDB, FindBook sample_id, CacheLookup ''64b7f0c2a1d3e4f5a6b7c8d9-1-3-5-medium'',
           SelectContent, Generate 1, Persist ''64b7f0c2a1d3e4f5a6b7c8d9-1-3-1-medium''])"
    using T [THEN conjunct2] unfolding a whole_book_lookup_key m by simp
  from h1 whole_book_request_valid h5 h6 k q T [THEN conjunct1] r show ?thesis by (intro conjI)
qed

lemma error_response_not_CacheHit: "error_response msg \<noteq> CacheHit c"
  by (simp add: error_response_def)

lemma generate_and_save_not_CacheHit:
  "fst (generate_and_save e qs req b actual n d content tr) \<noteq> CacheHit c"
  by (auto simp: generate_and_save_def Let_def error_response_not_CacheHit
           split: prod.splits sum.splits)

lemma cache_miss_not_CacheHit: "fst (cache_miss e qs req b actual n d tr) \<noteq> CacheHit c"
  by (auto simp: cache_miss_def Let_def error_response_not_CacheHit
             generate_and_save_not_CacheHit
           split: option.splits sum.splits)

text \<open>
  C10. For a request without a page range that passes the boundary checks and finds its
  book, a book as the upload stores it, the handler puts the range 1 to \<open>totalPages\<close> in
  place of the absent one before the cache lookup and before the persistence. The lookup
  is answered from the cache exactly when the store holds a quiz under the key of the book
  identifier, 1, \<open>totalPages\<close>, the question count and the difficulty: that quiz is
  returned (its use counted) when the store answers, and without one there is no hit,
  whatever else is stored. A quiz generated is persisted with the page range 1 to
  \<open>totalPages\<close> and a key made of that range. The key spells out \<open>totalPages\<close>, and
  differs from the key of a request for pages 1 to 1 (which is also the key of an absent
  range) whenever \<open>totalPages\<close> is not 1.
\<close>

theorem whole_book_key:
  assumes "req_method req = ''POST''" and "validate_request req = Inr (bookId, n, d)"
      and "req_pageRange req = None"
      and "connect_error e = None" and "findBook_error e = None"
      and "Book_findById store bookId = Some b" and "uploaded_book b"
  shows "(findOne_error e = None \<and> increment_save_error e = None
          \<and> findOne (quizzes store)
                (generateCacheKey bookId (Some \<lparr>range_start = 1, range_end = totalPages b\<rparr>) n d)
              = Some (i, c)
          \<longrightarrow> handler e store req =
                (CacheHit (c\<lparr>usageCount := usageCount c + 1, lastUsedAt := now_lookup e\<rparr>),
                 (quizzes store)[i := c\<lparr>usageCount := usageCount c + 1, lastUsedAt := now_lookup e\<rparr>],
                 [ConnectDB, FindBook bookId,
                  CacheLookup (generateCacheKey bookId
                     (Some \<lparr>range_start = 1, range_end = totalPages b\<rparr>) n d)]))
       \<and> (findOne (quizzes store)
                (generateCacheKey bookId (Some \<lparr>range_start = 1, range_end = totalPages b\<rparr>) n d)
              = None
          \<longrightarrow> (\<forall>hit. fst (handler e store req) \<noteq> CacheHit hit))
       \<and> (fst (handler e store req) = Generated q w \<longrightarrow>
            quiz_pageRange q = \<lparr>range_start = 1, range_end = totalPages b\<rparr>
            \<and> cacheKey q = generateCacheKey (book_id b)
                  (Some \<lparr>range_start = 1, range_end = totalPages b\<rparr>) (quiz_numberOfQuestions q) d
            \<and> q \<in> set (fst (snd (handler e store req))))
       \<and> generateCacheKey bookId (Some \<lparr>range_start = 1, range_end = totalPages b\<rparr>) n d
           = bookId @ ''-1-'' @ string_of_int (totalPages b) @ ''-'' @ string_of_int n @ ''-'' @ d
       \<and> (totalPages b \<noteq> 1 \<longrightarrow>
            generateCacheKey bookId (Some \<lparr>range_start = 1, range_end = totalPages b\<rparr>) n d
              \<noteq> generateCacheKey bookId (Some \<lparr>range_start = 1, range_end = 1\<rparr>) n d
            \<and> generateCacheKey bookId (Some \<lparr>range_start = 1, range_end = totalPages b\<rparr>) n d
              \<noteq> generateCacheKey bookId None n d)"
proof -
  let ?K = "generateCacheKey bookId (Some \<lparr>range_start = 1, range_end = totalPages b\<rparr>) n d"
  let ?tr = "[ConnectDB, FindBook bookId, CacheLookup ?K]"
  have h: "handler e store req = with_book e (quizzes store) req b bookId n d"
    using assms(1,2,4,5,6) by (rule handler_with_book)
  have a: "actualPageRange req b = \<lparr>range_start = 1, range_end = totalPages b\<rparr>"
    using assms(3) by (simp add: actualPageRange_def)
  have tp: "totalPages b \<noteq> 0" using uploaded_book_pages [OF assms(7)] by simp
  have one: "string_of_int 1 = ''1''" by code_simp
  have p1: "findOne_error e = None \<and> increment_save_error e = None
          \<and> findOne (quizzes store) ?K = Some (i, c)
          \<longrightarrow> handler e store req =
                (CacheHit (c\<lparr>usageCount := usageCount c + 1, lastUsedAt := now_lookup e\<rparr>),
                 (quizzes store)[i := c\<lparr>usageCount := usageCount c + 1, lastUsedAt := now_lookup e\<rparr>],
                 ?tr)"
    unfolding h by (simp add: with_book_def Let_def a findCachedQuiz_found)
  have p2: "findOne (quizzes store) ?K = None
          \<longrightarrow> (\<forall>hit. fst (handler e store req) \<noteq> CacheHit hit)"
  proof (intro impI allI)
    fix hit
    assume "findOne (quizzes store) ?K = None"
    then have "findCachedQuiz e (quizzes store) bookId
                 (Some \<lparr>range_start = 1, range_end = totalPages b\<rparr>) n d = (None, quizzes store)"
      by (simp add: findCachedQuiz_def Let_def split: option.splits)
    then show "fst (handler e store req) \<noteq> CacheHit hit"
      unfolding h by (simp add: with_book_def Let_def a cache_miss_not_CacheHit)
  qed
  have p3: "fst (handler e store req) = Generated q w \<longrightarrow>
            quiz_pageRange q = \<lparr>range_start = 1, range_end = totalPages b\<rparr>
            \<and> cacheKey q = generateCacheKey (book_id b)
                  (Some \<lparr>range_start = 1, range_end = totalPages b\<rparr>) (quiz_numberOfQuestions q) d
            \<and> q \<in> set (fst (snd (handler e store req)))"
    unfolding h using with_book_Generated [of e "quizzes store" req b bookId n d q w]
    by (simp only: a) blast
  have p4: "?K = bookId @ ''-1-'' @ string_of_int (totalPages b) @ ''-'' @ string_of_int n @ ''-'' @ d"
    using tp by (simp add: generateCacheKey_def key_start_def key_end_def or_one_def one)
  have same: "generateCacheKey bookId None n d
                = generateCacheKey bookId (Some \<lparr>range_start = 1, range_end = 1\<rparr>) n d"
    by (simp add: generateCacheKey_def key_start_def key_end_def or_one_def)
  have p5: "totalPages b \<noteq> 1 \<longrightarrow>
            ?K \<noteq> generateCacheKey bookId (Some \<lparr>range_start = 1, range_end = 1\<rparr>) n d
            \<and> ?K \<noteq> generateCacheKey bookId None n d"
    unfolding same using key_whole_book_differs [of "totalPages b" bookId n d] tp by blast
  from p1 p2 p3 p4 p5 show ?thesis by (intro conjI)
qed

text \<open>
  Whole-book requests on the sample book of three pages: a request for five questions is
  generated and stored (with the one question the model gave) when the store is empty, and
  a request for one question is then answered from the cache by that quiz, stored under the
  key of pages 1 to 3.
\<close>

theorem whole_book_key_witness:
  "req_method (post None None None) = ''POST'' \<and> req_method (post None (Some 1) None) = ''POST''
   \<and> validate_request (post None None None) = Inr (sample_id, 5, ''medium'')
   \<and> validate_request (post None (Some 1) None) = Inr (sample_id, 1, ''medium'')
   \<and> req_pageRange (post None None None) = None \<and> req_pageRange (post None (Some 1) None) = None
   \<and> Book_findById empty_db sample_id = Some sample_book
   \<and> Book_findById generated_db sample_id = Some sample_book
   \<and> uploaded_book sample_book \<and> totalPages sample_book = 3
   \<and> findOne (quizzes empty_db)
        (generateCacheKey sample_id (Some \<lparr>range_start = 1, range_end = 3\<rparr>) 5 ''medium'') = None
   \<and> fst (handler sample_env empty_db (post None None None)) = Generated generated_quiz False
   \<and> quiz_pageRange generated_quiz = \<lparr>range_start = 1, range_end = 3\<rparr>
   \<and> cacheKey generated_quiz
       = generateCacheKey (book_id sample_book) (Some \<lparr>range_start = 1, range_end = 3\<rparr>)
           (quiz_numberOfQuestions generated_quiz) ''medium''
   \<and> generated_quiz \<in> set (fst (snd (handler sample_env empty_db (post None None None))))
   \<and> findOne (quizzes generated_db)
        (generateCacheKey sample_id (Some \<lparr>range_start = 1, range_end = 3\<rparr>) 1 ''medium'')
       = Some (0, generated_quiz)
   \<and> handler sample_env generated_db (post None (Some 1) None)
       = (CacheHit (generated_quiz\<lparr>usageCount := 2, lastUsedAt := 1700000300\<rparr>),
          [generated_quiz\<lparr>usageCount := 2, lastUsedAt := 1700000300\<rparr>],
          [ConnectDB, FindBook sample_id, CacheLookup ''64b7f0c2a1d3e4f5a6b7c8d9-1-3-1-medium''])
   \<and> generateCacheKey sample_id (Some \<lparr>range_start = 1, range_end = 3\<rparr>) 5 ''medium''
       = ''64b7f0c2a1d3e4f5a6b7c8d9-1-3-5-medium''
   \<and> generateCacheKey sample_id (Some \<lparr>range_start = 1, range_end = 3\<rparr>) 5 ''medium''
       \<noteq> generateCacheKey sample_id (Some \<lparr>range_start = 1, range_end = 1\<rparr>) 5 ''medium''"
proof -
  let ?req = "post None None None"
  let ?req1 = "post None (Some 1) None"
  have h1: "req_method ?req = ''POST''" and h3: "req_pageRange ?req = None"
    and h1': "req_method ?req1 = ''POST''" and h3': "req_pageRange ?req1 = None"
    by (simp_all add: post_def)
  have h2': "validate_request ?req1 = Inr (sample_id, 1, ''medium'')" by code_simp
  have h4: "connect_error sample_env = None" and h5: "findBook_error sample_env = None"
    by (simp_all add: sample_env_def)
  have h6: "Book_findById empty_db sample_id = Some sample_book"
    by (simp add: empty_db_def books_of_def sample_book_def)
  have h6': "Book_findById generated_db sample_id = Some sample_book"
    by (simp add: generated_db_def books_of_def sample_book_def)
  have h7: "uploaded_book sample_book" by (simp add: uploaded_book_def sample_book_def)
  have tp: "totalPages sample_book = 3" by (simp add: sample_book_def)
  have e1: "findOne_error sample_env = None" and e2: "increment_save_error sample_env = None"
    and t: "now_lookup sample_env = 1700000300"
    by (simp_all add: sample_env_def)
  have u: "usageCount generated_quiz = 1" by (simp add: generated_quiz_def)
  have q: "quizzes generated_db = [generated_quiz]" by (simp add: generated_db_def)
  have f: "findOne (quizzes empty_db)
        (generateCacheKey sample_id (Some \<lparr>range_start = 1, range_end = 3\<rparr>) 5 ''medium'') = None"
    by (simp add: findOne_def empty_db_def)
  have f': "findOne (quizzes generated_db)
        (generateCacheKey sample_id (Some \<lparr>range_start = 1, range_end = 3\<rparr>) 1 ''medium'')
       = Some (0, generated_quiz)"
    unfolding whole_book_saved_key q by (simp add: findOne_def generated_quiz_def)
  have g: "fst (handler sample_env empty_db ?req) = Generated generated_quiz False"
    by (simp add: sample_whole_book_run)
  note T = whole_book_key [OF h1 whole_book_request_valid h3 h4 h5 h6 h7,
                           of 0 generated_quiz generated_quiz False, unfolded tp]
  note T' = whole_book_key [OF h1' h2' h3' h4 h5 h6' h7,
                            of 0 generated_quiz generated_quiz False, unfolded tp]
  have c1: "handler sample_env generated_db ?req1
       = (CacheHit (generated_quiz\<lparr>usageCount := 2, lastUsedAt := 1700000300\<rparr>),
          [generated_quiz\<lparr>usageCount := 2, lastUsedAt := 1700000300\<rparr>],
          [ConnectDB, FindBook sample_id, CacheLookup ''64b7f0c2a1d3e4f5a6b7c8d9-1-3-1-medium''])"
    using T' [THEN conjunct1] e1 e2 f' by (simp add: whole_book_saved_key q u t)
  have c2: "quiz_pageRange generated_quiz = \<lparr>range_start = 1, range_end = 3\<rparr>
   \<and> cacheKey generated_quiz
       = generateCacheKey (book_id sample_book) (Some \<lparr>range_start = 1, range_end = 3\<rparr>)
           (quiz_numberOfQuestions generated_quiz) ''medium''
   \<and> generated_quiz \<in> set (fst (snd (handler sample_env empty_db ?req)))"
    using T [THEN conjunct2, THEN conjunct2, THEN conjunct1] g by blast
  have c3: "generateCacheKey sample_id (Some \<lparr>range_start = 1, range_end = 3\<rparr>) 5 ''medium''
       \<noteq> generateCacheKey sample_id (Some \<lparr>range_start = 1, range_end = 1\<rparr>) 5 ''medium''"
    using T [THEN conjunct2, THEN conjunct2, THEN conjunct2, THEN conjunct2] by simp
  from h1 h1' whole_book_request_valid h2' h3 h3' h6 h6' h7 tp f g c2 f' c1
       whole_book_lookup_key c3
  show ?thesis by (intro conjI) blast+
qed

text \<open>
  A book without pages is not one the upload stores. For such a book, with \<open>totalPages\<close>
  0, the range put in place is 1 to 0, which \<open>generateCacheKey\<close> keys as 1 to 1.
\<close>

lemma pageless_book_lookup:
  "\<not> uploaded_book pageless_book
   \<and> actualPageRange (post None None None) pageless_book = \<lparr>range_start = 1, range_end = 0\<rparr>
   \<and> snd (snd (handler sample_env pageless_db (post None None None)))
       = [ConnectDB, FindBook sample_id, CacheLookup ''64b7f0c2a1d3e4f5a6b7c8d9-1-1-5-medium'',
          SelectContent]"
proof -
  have "\<not> uploaded_book pageless_book" by (simp add: uploaded_book_def pageless_book_def)
  moreover have "actualPageRange (post None None None) pageless_book = \<lparr>range_start = 1, range_end = 0\<rparr>
   \<and> snd (snd (handler sample_env pageless_db (post None None None)))
       = [ConnectDB, FindBook sample_id, CacheLookup ''64b7f0c2a1d3e4f5a6b7c8d9-1-1-5-medium'',
          SelectContent]"
    by code_simp
  ultimately show ?thesis by simp
qed

section \<open>Request boundary: properties\<close>

lemma validate_request_rejects:
  assumes "(\<exists>k. req_numberOfQuestions req = Some k \<and> k \<noteq> 0 \<and> (k < 1 \<or> k > 20))
           \<or> (\<exists>x. req_difficulty req = Some x \<and> x \<noteq> [] \<and> x \<notin> set [''easy'', ''medium'', ''hard''])
           \<or> (\<exists>r. req_pageRange req = Some r \<and> range_start r > range_end r)"
  shows "\<exists>msg. validate_request req = Inl (ErrorResponse 400 msg)"
  using assms
  by (auto simp: validate_request_def Let_def split: option.splits)

lemma handler_rejects_at_boundary:
  assumes "req_method req = ''POST''"
      and "(\<exists>k. req_numberOfQuestions req = Some k \<and> k \<noteq> 0 \<and> (k < 1 \<or> k > 20))
           \<or> (\<exists>x. req_difficulty req = Some x \<and> x \<noteq> [] \<and> x \<notin> set [''easy'', ''medium'', ''hard''])
           \<or> (\<exists>r. req_pageRange req = Some r \<and> range_start r > range_end r)"
  shows "\<exists>msg. handler e store req = (ErrorResponse 400 msg, quizzes store, [])"
proof -
  from validate_request_rejects [OF assms(2)]
  obtain msg where "validate_request req = Inl (ErrorResponse 400 msg)" by blast
  with assms(1) show ?thesis by (simp add: handler_def)
qed

text \<open>
  C7. The claim is that every request whose \<open>numberOfQuestions\<close> lies outside 1 to 20, or
  whose difficulty is not easy, medium or hard, is rejected before any core work. The
  handler reads a \<open>numberOfQuestions\<close> of 0 and an empty difficulty as absent: the request
  below, asking for 0 questions, passes the boundary as a request for 5 medium questions,
  reaches the database and is answered from the cache with a quiz of 5 questions.
\<close>

theorem handler_accepts_zero_questions:
  "req_numberOfQuestions (post None (Some 0) None) = Some 0
   \<and> validate_request (post None (Some 0) None) = Inr (sample_id, 5, ''medium'')
   \<and> validate_request (post None None (Some [])) = Inr (sample_id, 5, ''medium'')
   \<and> handler sample_env cached_db (post None (Some 0) None)
       = (CacheHit (whole_book_quiz\<lparr>usageCount := 2, lastUsedAt := 1700000300\<rparr>),
          [whole_book_quiz\<lparr>usageCount := 2, lastUsedAt := 1700000300\<rparr>],
          [ConnectDB, FindBook sample_id, CacheLookup ''64b7f0c2a1d3e4f5a6b7c8d9-1-3-5-medium''])"
  by code_simp

end
